theory Spec2Isabelle
  imports Main "HOL-Library.Word"
begin

section \<open>Filesystem store: attachment file names\<close>

text \<open>
  Go strings are byte sequences, modelled as \<^typ>\<open>string\<close> (a list of 8-bit
  characters).  The loop of \<open>sanitizeFilename\<close> is \<^verbatim>\<open>for _, ch := range filename\<close>,
  which walks the string rune by rune: each step decodes one UTF-8 sequence and
  advances by its width; a byte that does not start a well-formed sequence yields
  the replacement rune \<open>U+FFFD\<close> and advances by one byte.  \<open>decodeRune\<close> is that
  decoding step of the Go language, a rune being its code point.
\<close>

type_synonym rune = nat

definition RuneError :: rune where
  "RuneError = 0xFFFD"

definition decodeRune :: "string \<Rightarrow> rune \<times> nat" where
  "decodeRune s =
     (case s of
        [] \<Rightarrow> (RuneError, 0)
      | c0 # _ \<Rightarrow>
          let s0 = (of_char c0 :: nat) in
          if s0 < 0x80 then (s0, 1)
          else if s0 < 0xC2 \<or> 0xF4 < s0 then (RuneError, 1)
          else
            let sz = (if s0 < 0xE0 then 2 else if s0 < 0xF0 then 3 else 4 :: nat);
                lo = (if s0 = 0xE0 then 0xA0 else if s0 = 0xF0 then 0x90 else 0x80 :: nat);
                hi = (if s0 = 0xED then 0x9F else if s0 = 0xF4 then 0x8F else 0xBF :: nat)
            in
            if length s < sz then (RuneError, 1)
            else
              let s1 = (of_char (s ! 1) :: nat) in
              if s1 < lo \<or> hi < s1 then (RuneError, 1)
              else if sz \<le> 2 then ((s0 mod 32) * 64 + s1 mod 64, 2)
              else
                let s2 = (of_char (s ! 2) :: nat) in
                if s2 < 0x80 \<or> 0xBF < s2 then (RuneError, 1)
                else if sz \<le> 3 then ((s0 mod 16) * 4096 + (s1 mod 64) * 64 + s2 mod 64, 3)
                else
                  let s3 = (of_char (s ! 3) :: nat) in
                  if s3 < 0x80 \<or> 0xBF < s3 then (RuneError, 1)
                  else ((s0 mod 8) * 262144 + (s1 mod 64) * 4096 + (s2 mod 64) * 64
                          + s3 mod 64, 4))"

lemma decodeRune_width_pos: "0 < snd (decodeRune (c # cs))"
  by (simp add: decodeRune_def Let_def)

text \<open>The runes a \<^verbatim>\<open>range\<close> loop over the string visits, in order.\<close>

function range_runes :: "string \<Rightarrow> rune list" where
  "range_runes [] = []"
| "range_runes (c # cs) =
     fst (decodeRune (c # cs)) # range_runes (drop (snd (decodeRune (c # cs))) (c # cs))"
  by pat_completeness auto
termination
proof (relation "measure length")
  show "wf (measure length)" by simp
next
  fix c :: char and cs :: string
  have "0 < snd (decodeRune (c # cs))" by (rule decodeRune_width_pos)
  then show "(drop (snd (decodeRune (c # cs))) (c # cs), c # cs) \<in> measure length"
    by simp
qed

text \<open>The test of the loop body: letters, digits, dot, hyphen, underscore.\<close>

definition is_safe_rune :: "rune \<Rightarrow> bool" where
  "is_safe_rune ch \<longleftrightarrow>
     (of_char CHR ''a'' \<le> ch \<and> ch \<le> of_char CHR ''z'') \<or>
     (of_char CHR ''A'' \<le> ch \<and> ch \<le> of_char CHR ''Z'') \<or>
     (of_char CHR ''0'' \<le> ch \<and> ch \<le> of_char CHR ''9'') \<or>
     ch = of_char CHR ''.'' \<or> ch = of_char CHR ''-'' \<or> ch = of_char CHR ''_''"

text \<open>
  One iteration appends either \<open>string(ch)\<close> (for a rune below 128 the single
  byte of that value) or the underscore to the accumulator \<open>safe\<close>.
\<close>

definition sanitize_step :: "string \<Rightarrow> rune \<Rightarrow> string" where
  "sanitize_step safe ch =
     (if is_safe_rune ch then safe @ [char_of ch] else safe @ ''_'')"

definition sanitizeFilename :: "string \<Rightarrow> string" where
  "sanitizeFilename filename = foldl sanitize_step [] (range_runes filename)"

subsection \<open>Sanitising is idempotent\<close>

definition sanitize_rune :: "rune \<Rightarrow> char" where
  "sanitize_rune ch = (if is_safe_rune ch then char_of ch else CHR ''_'')"

lemma foldl_sanitize_step: "foldl sanitize_step acc rs = acc @ map sanitize_rune rs"
  by (induction rs arbitrary: acc) (simp_all add: sanitize_step_def sanitize_rune_def)

lemma sanitizeFilename_map: "sanitizeFilename name = map sanitize_rune (range_runes name)"
  by (simp add: sanitizeFilename_def foldl_sanitize_step)

lemma is_safe_rune_lt: "is_safe_rune ch \<Longrightarrow> ch < 128"
  by (auto simp: is_safe_rune_def)

lemma is_safe_sanitize_rune: "is_safe_rune (of_char (sanitize_rune ch))"
proof (cases "is_safe_rune ch")
  case True
  then have "ch < 256" using is_safe_rune_lt [of ch] by simp
  then have "of_char (char_of ch) = ch" by simp
  with True show ?thesis by (simp add: sanitize_rune_def)
next
  case False
  then show ?thesis by (simp add: sanitize_rune_def is_safe_rune_def)
qed

text \<open>On a string of bytes below 128 the loop visits the bytes themselves.\<close>

lemma range_runes_ascii:
  "\<forall>c \<in> set s. (of_char c :: nat) < 128 \<Longrightarrow> range_runes s = map of_char s"
  by (induction s) (simp_all add: decodeRune_def)

lemma sanitize_rune_safe_char: "is_safe_rune (of_char c) \<Longrightarrow> sanitize_rune (of_char c) = c"
  by (simp add: sanitize_rune_def)

lemma sanitizeFilename_fixpoint:
  assumes "\<forall>c \<in> set s. is_safe_rune (of_char c)"
  shows "sanitizeFilename s = s"
proof -
  have "\<forall>c \<in> set s. (of_char c :: nat) < 128"
    using assms is_safe_rune_lt by blast
  then have "range_runes s = map of_char s"
    by (rule range_runes_ascii)
  then have "sanitizeFilename s = map (\<lambda>c. sanitize_rune (of_char c)) s"
    by (simp add: sanitizeFilename_map comp_def)
  also have "\<dots> = map (\<lambda>c. c) s"
    using assms by (intro map_cong refl) (simp add: sanitize_rune_safe_char)
  finally show ?thesis by simp
qed

text \<open>
  Claim C9.  Applying \<open>sanitizeFilename\<close> twice gives the same string as applying
  it once, for every input string; and the function maps each rune of the input
  to one output byte: a rune that is an ASCII letter, an ASCII digit, a dot, a
  hyphen or an underscore is kept as it is, every other rune (a multi-byte
  character and a malformed byte included) becomes one underscore.
\<close>

theorem sanitizeFilename_idempotent:
  "sanitizeFilename (sanitizeFilename name) = sanitizeFilename name \<and>
   sanitizeFilename name =
     map (\<lambda>ch. if is_safe_rune ch then char_of ch else CHR ''_'') (range_runes name)"
proof
  show "sanitizeFilename (sanitizeFilename name) = sanitizeFilename name"
    by (rule sanitizeFilename_fixpoint) (auto simp: sanitizeFilename_map is_safe_sanitize_rune)
next
  have "sanitize_rune = (\<lambda>ch. if is_safe_rune ch then char_of ch else CHR ''_'')"
    by (rule ext) (simp add: sanitize_rune_def)
  then show "sanitizeFilename name =
      map (\<lambda>ch. if is_safe_rune ch then char_of ch else CHR ''_'') (range_runes name)"
    by (simp add: sanitizeFilename_map)
qed

theorem sanitizeFilename_idempotent_witness:
  "sanitizeFilename ''../a b/c.txt'' = ''.._a_b_c.txt'' \<and>
   sanitizeFilename (sanitizeFilename ''../a b/c.txt'') = ''.._a_b_c.txt'' \<and>
   sanitizeFilename [CHR 0xC3, CHR 0xA9, CHR ''x'', CHR 0xFF] = ''_x_''"
proof -
  have a: "sanitizeFilename ''../a b/c.txt'' = ''.._a_b_c.txt''"
    by (simp add: sanitizeFilename_def sanitize_step_def is_safe_rune_def decodeRune_def
        char_of_eq_iff)
  have b: "sanitizeFilename [CHR 0xC3, CHR 0xA9, CHR ''x'', CHR 0xFF] = ''_x_''"
    by (simp add: sanitizeFilename_def sanitize_step_def is_safe_rune_def decodeRune_def
        RuneError_def char_of_eq_iff)
  have "sanitizeFilename (sanitizeFilename ''../a b/c.txt'') = sanitizeFilename ''../a b/c.txt''"
    using sanitizeFilename_idempotent [of "''../a b/c.txt''"] by (rule conjunct1)
  with a b show ?thesis
    by (simp only: simp_thms)
qed

section \<open>Mail intake: the SMTP session\<close>

subsection \<open>Data of the session\<close>

text \<open>
  Go's \<open>int64\<close> is a 64-bit word read in two's complement; \<open>+\<close> wraps around.
  Go's \<open>int\<close> (the configured size ceiling, a length) is only compared and
  converted here, never added to, and is an \<^typ>\<open>int\<close>.
\<close>

type_synonym int64 = "64 word"

record ValidationResponse =
  Valid :: bool
  Expired :: bool
  StorageUsed :: int64
  StorageQuota :: int64

record recipientInfo =
  address :: string
  storageUsed :: int64
  storageQuota :: int64

record SMTPError =
  Code :: nat
  Message :: string

text \<open>
  The fields of the configuration that the session reads: \<open>MaxEmailSize\<close>, and
  the four authentication settings that \<open>main.go\<close> reads from the same
  structure.
\<close>

record Config =
  MaxEmailSize :: int
  ValidateSPF :: bool
  ValidateDKIM :: bool
  ValidateDMARC :: bool
  AuthPolicy :: string

text \<open>
  The session: the sender of \<open>MAIL FROM\<close> (field \<open>from\<close> of the source), the
  accepted recipients, and the peer address (\<open>None\<close> is Go's \<open>nil\<close> slice).
\<close>

record Session =
  mailFrom :: string
  recipients :: "recipientInfo list"
  clientIP :: "string option"

text \<open>A reply code is permanent in the 5xx range and temporary in the 4xx range.\<close>

definition permanent :: "SMTPError \<Rightarrow> bool" where
  "permanent e \<longleftrightarrow> 500 \<le> Code e \<and> Code e < 600"

definition temporary :: "SMTPError \<Rightarrow> bool" where
  "temporary e \<longleftrightarrow> 400 \<le> Code e \<and> Code e < 500"

subsection \<open>The validation client\<close>

text \<open>
  What one HTTP exchange of the API client can come to: the request cannot be
  built, it cannot be sent or answered, or a response arrives with a status code
  and a body that decodes to a value or does not.
\<close>

datatype 'a http_outcome =
  RequestError
| TransportError
| Response nat "'a option"

datatype api_error =
  CreateRequestFailed
| SendRequestFailed
| RequestFailed nat
| DecodeFailed
| MarshalFailed
| StoreFailed string
| FailedAfterAttempts nat "api_error option"

definition ValidateAddress :: "ValidationResponse http_outcome \<Rightarrow> api_error + ValidationResponse" where
  "ValidateAddress out =
     (case out of
        RequestError \<Rightarrow> Inl CreateRequestFailed
      | TransportError \<Rightarrow> Inl SendRequestFailed
      | Response status body \<Rightarrow>
          if status \<noteq> 200 then Inl (RequestFailed status)
          else (case body of None \<Rightarrow> Inl DecodeFailed | Some validation \<Rightarrow> Inr validation))"

subsection \<open>MAIL FROM, RCPT TO, RSET\<close>

definition Mail :: "Session \<Rightarrow> string \<Rightarrow> SMTPError option \<times> Session" where
  "Mail s frm = (None, s\<lparr>mailFrom := frm\<rparr>)"

text \<open>
  \<open>strings.Index\<close> for a one-byte separator that occurs in the string, and the
  slice \<open>address[start+1 : end]\<close>.  \<open>strings.TrimSpace\<close> belongs to the Go library
  and is a parameter.
\<close>

definition Index :: "string \<Rightarrow> char \<Rightarrow> nat" where
  "Index str c = length (takeWhile (\<lambda>x. x \<noteq> c) str)"

definition extractEmailAddress :: "(string \<Rightarrow> string) \<Rightarrow> string \<Rightarrow> string" where
  "extractEmailAddress TrimSpace address0 =
     (let address1 = TrimSpace address0;
          address2 =
            (if CHR ''<'' \<in> set address1 \<and> CHR ''>'' \<in> set address1 then
               (let start = Index address1 CHR ''<'';
                    end = Index address1 CHR ''>''
                in if start < end then take (end - (start + 1)) (drop (start + 1) address1)
                   else address1)
             else address1)
      in TrimSpace address2)"

text \<open>
  \<open>Rcpt\<close>: the second argument is the recipient as the client wrote it, the
  third the outcome of the HTTP exchange that \<open>ValidateAddress\<close> has for the
  extracted address.  The result is the error returned (\<open>None\<close> is \<open>nil\<close>) and
  the session afterwards.
\<close>

definition Rcpt ::
  "(string \<Rightarrow> string) \<Rightarrow> Session \<Rightarrow> string \<Rightarrow> (string \<Rightarrow> ValidationResponse http_outcome)
     \<Rightarrow> SMTPError option \<times> Session" where
  "Rcpt TrimSpace s to authority =
     (let addr = extractEmailAddress TrimSpace to in
      case ValidateAddress (authority addr) of
        Inl err \<Rightarrow>
          (Some \<lparr>Code = 451, Message = ''Temporary failure validating address''\<rparr>, s)
      | Inr validation \<Rightarrow>
          if \<not> Valid validation then
            (Some \<lparr>Code = 550, Message = ''Recipient address rejected: User unknown''\<rparr>, s)
          else if Expired validation then
            (Some \<lparr>Code = 550, Message = ''Recipient address rejected: Address expired''\<rparr>, s)
          else
            (None, s\<lparr>recipients := recipients s @
               [\<lparr>address = addr,
                 storageUsed = StorageUsed validation,
                 storageQuota = StorageQuota validation\<rparr>]\<rparr>))"

definition Reset :: "Session \<Rightarrow> Session" where
  "Reset s = s\<lparr>mailFrom := [], recipients := []\<rparr>"

subsection \<open>The auth evaluator\<close>

text \<open>
  \<open>strings.Split(email, "@")\<close>: the pieces between the separators, one more than
  there are separators.  \<open>extractDomain\<close> answers the second piece when there
  are exactly two, and the empty string otherwise.
\<close>

fun Split :: "string \<Rightarrow> char \<Rightarrow> string list" where
  "Split [] sep = [[]]"
| "Split (c # cs) sep =
     (if c = sep then [] # Split cs sep
      else (case Split cs sep of
              [] \<Rightarrow> [[c]]
            | p # ps \<Rightarrow> (c # p) # ps))"

definition extractDomain :: "string \<Rightarrow> string" where
  "extractDomain email =
     (let parts = Split email CHR ''@'' in
      if length parts = 2 then parts ! 1 else [])"

record AuthResult =
  SPFResult :: string
  DKIMResult :: string
  DMARCResult :: string
  SPFError :: bool
  DKIMError :: bool
  DMARCError :: bool

datatype spf_Result = Pass | Fail | SoftFail | Neutral | SPFNone | TempError | PermError | Unknown

fun spfResultToString :: "spf_Result \<Rightarrow> string" where
  "spfResultToString Pass = ''pass''"
| "spfResultToString Fail = ''fail''"
| "spfResultToString SoftFail = ''softfail''"
| "spfResultToString Neutral = ''neutral''"
| "spfResultToString SPFNone = ''none''"
| "spfResultToString TempError = ''temperror''"
| "spfResultToString PermError = ''permerror''"
| "spfResultToString Unknown = ''unknown''"

text \<open>
  The three library calls of \<open>validateEmailAuth\<close> answer from the network.  What
  they answer is a parameter:
  \<^item> \<open>spf_CheckHostWithSender ip sender\<close>: a result and whether an error came with it;
  \<^item> \<open>dkim_Verify raw\<close>: \<open>None\<close> for an error of the verification itself, else
    one entry per signature found, \<open>True\<close> where that signature has an error;
  \<^item> \<open>dmarc_Lookup domain\<close>: a policy record, the error \<open>ErrNoPolicy\<close>, or
    another error.
\<close>

datatype dmarc_outcome = Record string | ErrNoPolicy | LookupError

record AuthLib =
  spf_CheckHostWithSender :: "string \<Rightarrow> string \<Rightarrow> spf_Result \<times> bool"
  dkim_Verify :: "string \<Rightarrow> bool list option"
  dmarc_Lookup :: "string \<Rightarrow> dmarc_outcome"

definition spf_step :: "AuthLib \<Rightarrow> Config \<Rightarrow> Session \<Rightarrow> string \<Rightarrow> AuthResult \<Rightarrow> AuthResult" where
  "spf_step lib cfg s senderDomain result =
     (case clientIP s of
        None \<Rightarrow> result
      | Some ip \<Rightarrow>
          if ValidateSPF cfg \<and> senderDomain \<noteq> [] then
            (case spf_CheckHostWithSender lib ip (mailFrom s) of
               (spfResult, err) \<Rightarrow>
                 if err then result\<lparr>SPFError := True, SPFResult := ''temperror''\<rparr>
                 else result\<lparr>SPFResult := spfResultToString spfResult\<rparr>)
          else result)"

text \<open>
  The loop over the verifications clears \<open>allPassed\<close> at each signature that has
  an error.
\<close>

fun dkim_allPassed :: "bool \<Rightarrow> bool list \<Rightarrow> bool" where
  "dkim_allPassed allPassed [] = allPassed"
| "dkim_allPassed allPassed (v_err # vs) =
     (if v_err then dkim_allPassed False vs else dkim_allPassed allPassed vs)"

definition dkim_step :: "AuthLib \<Rightarrow> Config \<Rightarrow> string \<Rightarrow> AuthResult \<Rightarrow> AuthResult" where
  "dkim_step lib cfg rawEmail result =
     (if ValidateDKIM cfg then
        (case dkim_Verify lib rawEmail of
           None \<Rightarrow> result\<lparr>DKIMError := True, DKIMResult := ''temperror''\<rparr>
         | Some verifications \<Rightarrow>
             if length verifications = 0 then result\<lparr>DKIMResult := ''none''\<rparr>
             else if dkim_allPassed True verifications then result\<lparr>DKIMResult := ''pass''\<rparr>
             else result\<lparr>DKIMResult := ''fail''\<rparr>)
      else result)"

definition dmarc_step :: "AuthLib \<Rightarrow> Config \<Rightarrow> string \<Rightarrow> AuthResult \<Rightarrow> AuthResult" where
  "dmarc_step lib cfg senderDomain result =
     (if ValidateDMARC cfg \<and> senderDomain \<noteq> [] then
        (case dmarc_Lookup lib senderDomain of
           ErrNoPolicy \<Rightarrow> result\<lparr>DMARCResult := ''none''\<rparr>
         | LookupError \<Rightarrow> result\<lparr>DMARCError := True, DMARCResult := ''temperror''\<rparr>
         | Record policy \<Rightarrow>
             (let spfAligned = (SPFResult result = ''pass'');
                  dkimAligned = (DKIMResult result = ''pass'')
              in if spfAligned \<or> dkimAligned then result\<lparr>DMARCResult := ''pass''\<rparr>
                 else result\<lparr>DMARCResult := ''fail''\<rparr>))
      else result)"

definition validateEmailAuth :: "AuthLib \<Rightarrow> Config \<Rightarrow> Session \<Rightarrow> string \<Rightarrow> AuthResult" where
  "validateEmailAuth lib cfg s rawEmail =
     (let result0 = \<lparr>SPFResult = ''none'', DKIMResult = ''none'', DMARCResult = ''none'',
                      SPFError = False, DKIMError = False, DMARCError = False\<rparr>;
          senderDomain = extractDomain (mailFrom s);
          result1 = spf_step lib cfg s senderDomain result0;
          result2 = dkim_step lib cfg rawEmail result1
      in dmarc_step lib cfg senderDomain result2)"

definition shouldRejectEmail :: "Config \<Rightarrow> AuthResult \<Rightarrow> bool" where
  "shouldRejectEmail cfg authResult =
     (if AuthPolicy cfg \<noteq> ''reject'' then False
      else if ValidateSPF cfg \<and>
              (SPFResult authResult = ''fail'' \<or> SPFResult authResult = ''permerror'') then True
      else if ValidateDKIM cfg \<and> DKIMResult authResult = ''fail'' then True
      else if ValidateDMARC cfg \<and> DMARCResult authResult = ''fail'' then True
      else False)"

subsection \<open>The persistence notifier\<close>

record StoreEmailRequest =
  To :: string
  From :: string
  Subject :: string
  BodyText :: string
  BodyHTML :: string
  RawEmail :: string
  FilePath :: string
  Timestamp :: string
  AttachmentPaths :: "string list"
  AttachmentNames :: "string list"
  AttachmentSizes :: "int64 list"

record StoreEmailResponse =
  Success :: bool
  StoreMessage :: string
  EmailID :: string

text \<open>
  What the service does to the world, in order: a file put in place under its
  final path with its content, one attempt to POST a store request for an
  address to the record store (one call of \<open>doStoreEmail\<close>), a sleep of so many
  seconds.
\<close>

datatype action =
  WriteFile string string
| PostStore string StoreEmailRequest
| Sleep nat

text \<open>
  \<open>doStoreEmail\<close>, one attempt.  \<open>marshal\<close> says whether the request serialises;
  \<open>out\<close> is the outcome of the HTTP exchange.
\<close>

definition doStoreEmail ::
  "bool \<Rightarrow> StoreEmailResponse http_outcome \<Rightarrow> api_error + StoreEmailResponse" where
  "doStoreEmail marshal out =
     (if \<not> marshal then Inl MarshalFailed
      else (case out of
              RequestError \<Rightarrow> Inl CreateRequestFailed
            | TransportError \<Rightarrow> Inl SendRequestFailed
            | Response status body \<Rightarrow>
                if status \<noteq> 200 then Inl (RequestFailed status)
                else (case body of
                        None \<Rightarrow> Inl DecodeFailed
                      | Some storeResp \<Rightarrow>
                          if \<not> Success storeResp then Inl (StoreFailed (StoreMessage storeResp))
                          else Inr storeResp)))"

text \<open>
  The retry loop of \<open>StoreEmail\<close>: \<open>for attempt := range maxRetries\<close>.  The first
  argument of \<open>StoreEmail_loop\<close> counts the iterations left, \<open>attempt\<close> is the
  loop variable, \<open>outcomes attempt\<close> the outcome of the exchange of that attempt.
  The backoff is \<open>1 << (attempt - 1)\<close> seconds.
\<close>

definition maxRetries :: nat where
  "maxRetries = 3"

fun StoreEmail_loop ::
  "nat \<Rightarrow> nat \<Rightarrow> api_error option \<Rightarrow> bool \<Rightarrow> (nat \<Rightarrow> StoreEmailResponse http_outcome)
     \<Rightarrow> string \<Rightarrow> StoreEmailRequest \<Rightarrow> action list \<times> (api_error + StoreEmailResponse)" where
  "StoreEmail_loop 0 attempt lastErr marshal outcomes addr req =
     ([], Inl (FailedAfterAttempts maxRetries lastErr))"
| "StoreEmail_loop (Suc left) attempt lastErr marshal outcomes addr req =
     (let backoff = (if attempt > 0 then [Sleep (2 ^ (attempt - 1))] else []) in
      case doStoreEmail marshal (outcomes attempt) of
        Inr resp \<Rightarrow> (backoff @ [PostStore addr req], Inr resp)
      | Inl err \<Rightarrow>
          (case StoreEmail_loop left (Suc attempt) (Some err) marshal outcomes addr req of
             (later, res) \<Rightarrow> (backoff @ [PostStore addr req] @ later, res)))"

definition StoreEmail ::
  "bool \<Rightarrow> (nat \<Rightarrow> StoreEmailResponse http_outcome) \<Rightarrow> string \<Rightarrow> StoreEmailRequest
     \<Rightarrow> action list \<times> (api_error + StoreEmailResponse)" where
  "StoreEmail marshal outcomes addr req =
     StoreEmail_loop maxRetries 0 None marshal outcomes addr req"

subsection \<open>The filesystem store\<close>

text \<open>
  \<open>SaveEmail\<close> makes the directory, draws a file name from the clock and the
  random source, writes a temporary file and renames it.  Any of these steps can
  fail; then no file stands under the final path.  The outcome is a parameter:
  failure, or the file name that was drawn.
\<close>

datatype storage_error = SaveEmailFailed | SaveAttachmentFailed

datatype save_outcome = SaveError | Saved string

text \<open>
  \<open>filepath.Clean\<close>, \<open>filepath.Join\<close> and \<open>filepath.Base\<close> of the Go library, for
  the slash as separator.  \<open>Clean\<close> drops empty elements and \<open>.\<close> elements, lets a
  \<open>..\<close> element take away the element before it (at the root it is dropped, at
  the start of a relative path it stays), keeps the leading slash of a rooted
  path, and answers \<open>.\<close> for what comes out empty.  \<open>Join\<close> of a directory and
  a name cleans the two with a slash between, starting at the first that is not
  empty.  \<open>Base\<close> is the last element of the path, trailing slashes aside.
\<close>

definition clean_step :: "bool \<Rightarrow> string list \<Rightarrow> string \<Rightarrow> string list" where
  "clean_step rooted out elem =
     (if elem = [] \<or> elem = ''.'' then out
      else if elem = ''..'' then
        (if out \<noteq> [] \<and> last out \<noteq> ''..'' then butlast out
         else if \<not> rooted then out @ [''..'']
         else out)
      else out @ [elem])"

fun join_elems :: "string list \<Rightarrow> string" where
  "join_elems [] = []"
| "join_elems [e] = e"
| "join_elems (e # e' # es) = e @ ''/'' @ join_elems (e' # es)"

definition filepath_Clean :: "string \<Rightarrow> string" where
  "filepath_Clean path =
     (case path of
        [] \<Rightarrow> ''.''
      | c # _ \<Rightarrow>
          (let rooted = (c = CHR ''/'');
               out = (if rooted then ''/'' else [])
                       @ join_elems (foldl (clean_step rooted) [] (Split path CHR ''/''))
           in if out = [] then ''.'' else out))"

definition filepath_Join :: "string \<Rightarrow> string \<Rightarrow> string" where
  "filepath_Join dir name =
     (if dir \<noteq> [] then filepath_Clean (dir @ ''/'' @ name)
      else if name \<noteq> [] then filepath_Clean name
      else [])"

definition filepath_Base :: "string \<Rightarrow> string" where
  "filepath_Base path =
     (if path = [] then ''.''
      else
        (let stripped = rev (dropWhile (\<lambda>c. c = CHR ''/'') (rev path));
             elem = rev (takeWhile (\<lambda>c. c \<noteq> CHR ''/'') (rev stripped))
         in if elem = [] then ''/'' else elem))"

definition SaveEmail ::
  "string \<Rightarrow> save_outcome \<Rightarrow> string \<Rightarrow> string \<Rightarrow> action list \<times> (storage_error + string)" where
  "SaveEmail basePath outcome toAddress rawEmail =
     (case outcome of
        SaveError \<Rightarrow> ([], Inl SaveEmailFailed)
      | Saved filename \<Rightarrow>
          ([WriteFile (filepath_Join basePath filename) rawEmail],
           Inr (filepath_Join basePath filename)))"

definition SaveAttachment ::
  "string \<Rightarrow> bool \<Rightarrow> string \<Rightarrow> string \<Rightarrow> string \<Rightarrow> action list \<times> (storage_error + string)" where
  "SaveAttachment basePath ok emailFilename attachmentName content =
     (let baseEmailName =
            (if length emailFilename > 4 \<and>
                drop (length emailFilename - 4) emailFilename = ''.eml''
             then take (length emailFilename - 4) emailFilename
             else emailFilename);
          attachmentFilename = baseEmailName @ ''_'' @ sanitizeFilename attachmentName;
          filePath = filepath_Join basePath attachmentFilename
      in if ok then ([WriteFile filePath content], Inr filePath)
         else ([], Inl SaveAttachmentFailed))"

subsection \<open>Processing one recipient\<close>

text \<open>
  What \<open>enmime.ReadEnvelope\<close> hands back, as far as \<open>processEmail\<close> reads it: the
  two headers it asks for, the bodies, the attachments and the inline parts.
\<close>

record Part =
  FileName :: string
  ContentID :: string
  ContentType :: string
  Content :: string

record Envelope =
  HeaderSubject :: string
  HeaderFrom :: string
  Text :: string
  HTML :: string
  Attachments :: "Part list"
  Inlines :: "Part list"

text \<open>
  The surroundings of the session that are not code of the service: the
  directory of the store and the outcome of each file operation, the MIME
  parser, the clock, and the outcome of each exchange with the record store.
  Outcomes are indexed by the position of the recipient in the session's list
  (and by the position of the part, or the number of the attempt).
\<close>

record World =
  basePath :: string
  save_email :: "nat \<Rightarrow> save_outcome"
  save_attachment :: "nat \<Rightarrow> nat \<Rightarrow> bool"
  save_inline :: "nat \<Rightarrow> nat \<Rightarrow> bool"
  ReadEnvelope :: "string \<Rightarrow> Envelope option"
  clock :: "nat \<Rightarrow> string"
  json_Marshal :: "StoreEmailRequest \<Rightarrow> bool"
  store_outcomes :: "nat \<Rightarrow> nat \<Rightarrow> StoreEmailResponse http_outcome"

text \<open>
  The two loops over the parts.  \<open>fallback\<close> names a part that has no file
  name; \<open>j\<close> counts the parts; the accumulator holds the three slices
  \<open>attachmentPaths\<close>, \<open>attachmentNames\<close>, \<open>attachmentSizes\<close>.  A part that cannot be
  saved is left out and the loop goes on.
\<close>

fun save_parts ::
  "string \<Rightarrow> (nat \<Rightarrow> bool) \<Rightarrow> string \<Rightarrow> (Part \<Rightarrow> string) \<Rightarrow> nat \<Rightarrow> Part list
     \<Rightarrow> string list \<times> string list \<times> int64 list
     \<Rightarrow> action list \<times> (string list \<times> string list \<times> int64 list)" where
  "save_parts dir ok emailFilename fallback j [] acc = ([], acc)"
| "save_parts dir ok emailFilename fallback j (att # atts) (paths, names, sizes) =
     (let filename = (if FileName att = [] then fallback att else FileName att) in
      case SaveAttachment dir (ok j) emailFilename filename (Content att) of
        (written, Inl err) \<Rightarrow>
          (case save_parts dir ok emailFilename fallback (Suc j) atts (paths, names, sizes) of
             (later, acc') \<Rightarrow> (written @ later, acc'))
      | (written, Inr attPath) \<Rightarrow>
          (case save_parts dir ok emailFilename fallback (Suc j) atts
                  (paths @ [attPath], names @ [filename],
                   sizes @ [word_of_nat (length (Content att))]) of
             (later, acc') \<Rightarrow> (written @ later, acc')))"

definition emptyEnvelope :: Envelope where
  "emptyEnvelope =
     \<lparr>HeaderSubject = [], HeaderFrom = [], Text = [], HTML = [],
      Attachments = [], Inlines = []\<rparr>"

text \<open>
  \<open>processEmail\<close> for the recipient at position \<open>i\<close>: the actions it performs and
  the error it returns.  A store request that fails after its retries is logged
  and the function returns \<open>nil\<close>.
\<close>

definition processEmail ::
  "World \<Rightarrow> Session \<Rightarrow> nat \<Rightarrow> string \<Rightarrow> string \<Rightarrow> action list \<times> storage_error option" where
  "processEmail w s i toAddress rawEmail =
     (case SaveEmail (basePath w) (save_email w i) toAddress rawEmail of
        (saved, Inl err) \<Rightarrow> (saved, Some err)
      | (saved, Inr filePath) \<Rightarrow>
          (let env = (case ReadEnvelope w rawEmail of None \<Rightarrow> emptyEnvelope | Some e \<Rightarrow> e);
               subject = HeaderSubject env;
               fromHeader = (if HeaderFrom env = [] then mailFrom s else HeaderFrom env);
               emailFilename = filepath_Base filePath
           in
           case save_parts (basePath w) (save_attachment w i) emailFilename
                  (\<lambda>att. ''unnamed'') 0 (Attachments env) ([], [], []) of
             (acts1, acc1) \<Rightarrow>
           case save_parts (basePath w) (save_inline w i) emailFilename
                  (\<lambda>att. ''inline_'' @ ContentID att) 0 (Inlines env) acc1 of
             (acts2, (attachmentPaths, attachmentNames, attachmentSizes)) \<Rightarrow>
           (let storeReq =
                  \<lparr>To = toAddress, From = fromHeader, Subject = subject,
                   BodyText = Text env, BodyHTML = HTML env, RawEmail = rawEmail,
                   FilePath = filePath, Timestamp = clock w i,
                   AttachmentPaths = attachmentPaths,
                   AttachmentNames = attachmentNames,
                   AttachmentSizes = attachmentSizes\<rparr>
            in case StoreEmail (json_Marshal w storeReq) (store_outcomes w i) toAddress storeReq of
                 (acts3, res) \<Rightarrow> (saved @ acts1 @ acts2 @ acts3, None))))"

subsection \<open>The data phase\<close>

text \<open>
  The reader of the message body: the bytes the client sends, and whether the
  stream then breaks with an error instead of ending.  The error is met by the
  read that follows the last byte.
  \<open>io.ReadAll(io.LimitReader(r, n))\<close> takes at most \<open>n\<close> bytes from \<open>r\<close> (none for
  \<open>n \<le> 0\<close>) and reports the error of the stream when it reaches it before the
  limit.
\<close>

datatype Reader = Reader (stream: string) (failure: bool)

definition ReadAll_LimitReader :: "Reader \<Rightarrow> int \<Rightarrow> string \<times> bool" where
  "ReadAll_LimitReader r n =
     (take (nat n) (stream r), failure r \<and> int (length (stream r)) < n)"

text \<open>
  The result of \<open>Data\<close>: the error returned (\<open>None\<close> is \<open>nil\<close>), the number of
  bytes taken from the reader, and the actions performed, each with the
  position of the recipient it was performed for.
\<close>

record DataResult =
  reply :: "SMTPError option"
  consumed :: nat
  effects :: "(nat \<times> action) list"

text \<open>
  The quota test of the loop, on \<open>int64\<close>: the sum wraps around, the comparisons
  are signed.
\<close>

definition quota_exceeded :: "recipientInfo \<Rightarrow> int64 \<Rightarrow> bool" where
  "quota_exceeded rcpt emailSize \<longleftrightarrow>
     0 < sint (storageQuota rcpt) \<and>
     sint (storageQuota rcpt) < sint (storageUsed rcpt + emailSize)"

fun Data_loop ::
  "World \<Rightarrow> Session \<Rightarrow> string \<Rightarrow> int64 \<Rightarrow> nat \<Rightarrow> recipientInfo list \<Rightarrow> (nat \<times> action) list" where
  "Data_loop w s rawEmail emailSize i [] = []"
| "Data_loop w s rawEmail emailSize i (rcpt # rcpts) =
     (if quota_exceeded rcpt emailSize then Data_loop w s rawEmail emailSize (Suc i) rcpts
      else map (Pair i) (fst (processEmail w s i (address rcpt) rawEmail))
             @ Data_loop w s rawEmail emailSize (Suc i) rcpts)"

definition Data :: "World \<Rightarrow> AuthLib \<Rightarrow> Config \<Rightarrow> Session \<Rightarrow> Reader \<Rightarrow> DataResult" where
  "Data w lib cfg s r =
     (if length (recipients s) = 0 then
        \<lparr>reply = Some \<lparr>Code = 554, Message = ''No valid recipients''\<rparr>,
         consumed = 0, effects = []\<rparr>
      else
        (case ReadAll_LimitReader r (MaxEmailSize cfg) of
           (rawEmail, err) \<Rightarrow>
             if err then
               \<lparr>reply = Some \<lparr>Code = 451, Message = ''Failed to read email data''\<rparr>,
                consumed = length rawEmail, effects = []\<rparr>
             else if int (length rawEmail) \<ge> MaxEmailSize cfg then
               \<lparr>reply = Some \<lparr>Code = 552, Message = ''Email exceeds maximum size (20MB)''\<rparr>,
                consumed = length rawEmail, effects = []\<rparr>
             else
               (let emailSize = (word_of_nat (length rawEmail) :: int64) in
                if (ValidateSPF cfg \<or> ValidateDKIM cfg \<or> ValidateDMARC cfg) \<and>
                   shouldRejectEmail cfg (validateEmailAuth lib cfg s rawEmail) then
                  \<lparr>reply = Some \<lparr>Code = 550,
                       Message = ''Email rejected: authentication failed (SPF/DKIM/DMARC)''\<rparr>,
                   consumed = length rawEmail, effects = []\<rparr>
                else
                  \<lparr>reply = None, consumed = length rawEmail,
                   effects = Data_loop w s rawEmail emailSize 0 (recipients s)\<rparr>)))"

subsection \<open>Concrete sessions\<close>

text \<open>
  A configuration without authentication checks and with a ceiling of 1000
  bytes, surroundings in which every file operation succeeds and the record
  store answers the second attempt, and a session with two accepted recipients.
\<close>

definition example_config :: Config where
  "example_config =
     \<lparr>MaxEmailSize = 1000, ValidateSPF = False, ValidateDKIM = False,
      ValidateDMARC = False, AuthPolicy = ''log''\<rparr>"

definition example_world :: World where
  "example_world =
     \<lparr>basePath = ''mail'',
      save_email = (\<lambda>i. Saved ''f.eml''),
      save_attachment = (\<lambda>i j. True),
      save_inline = (\<lambda>i j. True),
      ReadEnvelope = (\<lambda>raw. None),
      clock = (\<lambda>i. ''2024-01-01T00:00:00Z''),
      json_Marshal = (\<lambda>req. True),
      store_outcomes = (\<lambda>i attempt.
         if attempt = 0 then TransportError
         else Response 200 (Some \<lparr>Success = True, StoreMessage = ''ok'', EmailID = ''01''\<rparr>))\<rparr>"

definition example_authlib :: AuthLib where
  "example_authlib =
     \<lparr>spf_CheckHostWithSender = (\<lambda>ip sender. (Fail, False)),
      dkim_Verify = (\<lambda>raw. Some [False]),
      dmarc_Lookup = (\<lambda>domain. Record ''reject'')\<rparr>"

definition example_session :: Session where
  "example_session =
     \<lparr>mailFrom = ''a@b.c'',
      recipients =
        [\<lparr>address = ''u@tmp.io'', storageUsed = 10, storageQuota = 0\<rparr>,
         \<lparr>address = ''v@tmp.io'', storageUsed = 1000, storageQuota = 1000\<rparr>],
      clientIP = Some ''192.0.2.1''\<rparr>"

subsection \<open>RCPT TO\<close>

text \<open>
  How \<open>Rcpt\<close> reads each answer of the authority.  The validation call fails
  when the request cannot be built or sent, when the status is not 200, and
  when the body of a 200 answer does not decode; only a 200 answer with a body
  that decodes hands a validation result to \<open>Rcpt\<close>.
\<close>

lemma ValidateAddress_error_iff:
  "(\<exists>err. ValidateAddress out = Inl err) \<longleftrightarrow>
     out = RequestError \<or> out = TransportError \<or>
     (\<exists>status body. out = Response status body \<and> (status \<noteq> 200 \<or> body = None))"
  by (cases out) (auto simp add: ValidateAddress_def split: option.splits)

text \<open>
  Claim C3, as the code has it.  The outcome of a RCPT declaration is
  determined by the answer of the authority for the extracted address:
  \<^item> a 200 answer that says the address is not valid (does not exist) rejects
    the recipient with the permanent code 550;
  \<^item> a 200 answer that says it is valid and expired rejects it with the
    permanent code 550;
  \<^item> a transport error, a request that cannot be built, a 200 answer that
    does not decode, and every answer with a status other than 200 (a 4xx
    "not found" of the authority as much as a 5xx) reject it with the temporary
    code 451;
  \<^item> a 200 answer that says it is valid and not expired accepts it: the reply
    is \<open>nil\<close> and the extracted address with the returned quota-used and
    quota-limit is appended to the accepted recipients.

  In the three rejecting cases the session is unchanged.
\<close>

theorem Rcpt_outcome:
  "((authority (extractEmailAddress T to) = RequestError \<or>
     authority (extractEmailAddress T to) = TransportError \<or>
     (authority (extractEmailAddress T to) = Response status body \<and>
        (status \<noteq> 200 \<or> body = None))) \<longrightarrow>
      Rcpt T s to authority =
        (Some \<lparr>Code = 451, Message = ''Temporary failure validating address''\<rparr>, s) \<and>
      temporary \<lparr>Code = 451, Message = ''Temporary failure validating address''\<rparr> \<and>
      \<not> permanent \<lparr>Code = 451, Message = ''Temporary failure validating address''\<rparr>) \<and>
   (authority (extractEmailAddress T to) = Response 200 (Some v) \<and> \<not> Valid v \<longrightarrow>
      Rcpt T s to authority =
        (Some \<lparr>Code = 550, Message = ''Recipient address rejected: User unknown''\<rparr>, s) \<and>
      permanent \<lparr>Code = 550, Message = ''Recipient address rejected: User unknown''\<rparr>) \<and>
   (authority (extractEmailAddress T to) = Response 200 (Some v) \<and> Valid v \<and> Expired v \<longrightarrow>
      Rcpt T s to authority =
        (Some \<lparr>Code = 550, Message = ''Recipient address rejected: Address expired''\<rparr>, s) \<and>
      permanent \<lparr>Code = 550, Message = ''Recipient address rejected: Address expired''\<rparr>) \<and>
   (authority (extractEmailAddress T to) = Response 200 (Some v) \<and> Valid v \<and> \<not> Expired v \<longrightarrow>
      Rcpt T s to authority =
        (None, s\<lparr>recipients := recipients s @
           [\<lparr>address = extractEmailAddress T to,
             storageUsed = StorageUsed v, storageQuota = StorageQuota v\<rparr>]\<rparr>))"
proof -
  have failed: "Rcpt T s to authority =
        (Some \<lparr>Code = 451, Message = ''Temporary failure validating address''\<rparr>, s)"
    if "authority (extractEmailAddress T to) = RequestError \<or>
        authority (extractEmailAddress T to) = TransportError \<or>
        (authority (extractEmailAddress T to) = Response status body \<and>
           (status \<noteq> 200 \<or> body = None))"
  proof -
    from that have "\<exists>err. ValidateAddress (authority (extractEmailAddress T to)) = Inl err"
      unfolding ValidateAddress_error_iff by blast
    then show ?thesis
      by (auto simp add: Rcpt_def Let_def)
  qed
  have answered: "ValidateAddress (authority (extractEmailAddress T to)) = Inr v"
    if "authority (extractEmailAddress T to) = Response 200 (Some v)"
    using that by (simp add: ValidateAddress_def)
  have unknown: "Rcpt T s to authority =
        (Some \<lparr>Code = 550, Message = ''Recipient address rejected: User unknown''\<rparr>, s)"
    if "authority (extractEmailAddress T to) = Response 200 (Some v) \<and> \<not> Valid v"
    using that answered by (simp add: Rcpt_def Let_def)
  have expired: "Rcpt T s to authority =
        (Some \<lparr>Code = 550, Message = ''Recipient address rejected: Address expired''\<rparr>, s)"
    if "authority (extractEmailAddress T to) = Response 200 (Some v) \<and> Valid v \<and> Expired v"
    using that answered by (simp add: Rcpt_def Let_def)
  have accepted: "Rcpt T s to authority =
        (None, s\<lparr>recipients := recipients s @
           [\<lparr>address = extractEmailAddress T to,
             storageUsed = StorageUsed v, storageQuota = StorageQuota v\<rparr>]\<rparr>)"
    if "authority (extractEmailAddress T to) = Response 200 (Some v) \<and> Valid v \<and> \<not> Expired v"
    using that answered by (simp add: Rcpt_def Let_def)
  have codes:
    "temporary \<lparr>Code = 451, Message = ''Temporary failure validating address''\<rparr>"
    "\<not> permanent \<lparr>Code = 451, Message = ''Temporary failure validating address''\<rparr>"
    "permanent \<lparr>Code = 550, Message = ''Recipient address rejected: User unknown''\<rparr>"
    "permanent \<lparr>Code = 550, Message = ''Recipient address rejected: Address expired''\<rparr>"
    by (simp_all add: temporary_def permanent_def)
  from failed unknown expired accepted codes show ?thesis
    by blast
qed

theorem Rcpt_outcome_witness:
  "Rcpt (\<lambda>x. x) example_session ''User <w@tmp.io>'' (\<lambda>a. Response 503 None) =
     (Some \<lparr>Code = 451, Message = ''Temporary failure validating address''\<rparr>, example_session) \<and>
   Rcpt (\<lambda>x. x) example_session ''User <w@tmp.io>''
       (\<lambda>a. Response 200 (Some \<lparr>Valid = False, Expired = False,
                                 StorageUsed = 0, StorageQuota = 0\<rparr>)) =
     (Some \<lparr>Code = 550, Message = ''Recipient address rejected: User unknown''\<rparr>,
      example_session) \<and>
   Rcpt (\<lambda>x. x) example_session ''User <w@tmp.io>''
       (\<lambda>a. Response 200 (Some \<lparr>Valid = True, Expired = True,
                                 StorageUsed = 0, StorageQuota = 0\<rparr>)) =
     (Some \<lparr>Code = 550, Message = ''Recipient address rejected: Address expired''\<rparr>,
      example_session) \<and>
   Rcpt (\<lambda>x. x) example_session ''User <w@tmp.io>''
       (\<lambda>a. Response 200 (Some \<lparr>Valid = True, Expired = False,
                                 StorageUsed = 5, StorageQuota = 100\<rparr>)) =
     (None, example_session\<lparr>recipients := recipients example_session @
        [\<lparr>address = ''w@tmp.io'', storageUsed = 5, storageQuota = 100\<rparr>]\<rparr>)"
proof -
  have addr: "extractEmailAddress (\<lambda>x. x) ''User <w@tmp.io>'' = ''w@tmp.io''"
    by (simp add: extractEmailAddress_def Index_def)
  have a: "Rcpt (\<lambda>x. x) example_session ''User <w@tmp.io>'' (\<lambda>a. Response 503 None) =
     (Some \<lparr>Code = 451, Message = ''Temporary failure validating address''\<rparr>, example_session)"
    using Rcpt_outcome [where T = "\<lambda>x. x" and to = "''User <w@tmp.io>''"
        and authority = "\<lambda>a. Response 503 None" and status = 503 and body = None
        and s = example_session]
    by simp
  have b: "Rcpt (\<lambda>x. x) example_session ''User <w@tmp.io>''
       (\<lambda>a. Response 200 (Some \<lparr>Valid = False, Expired = False,
                                 StorageUsed = 0, StorageQuota = 0\<rparr>)) =
     (Some \<lparr>Code = 550, Message = ''Recipient address rejected: User unknown''\<rparr>,
      example_session)"
    using Rcpt_outcome [where T = "\<lambda>x. x" and to = "''User <w@tmp.io>''"
        and authority = "\<lambda>a. Response 200 (Some \<lparr>Valid = False, Expired = False,
                                 StorageUsed = 0, StorageQuota = 0\<rparr>)"
        and v = "\<lparr>Valid = False, Expired = False, StorageUsed = 0, StorageQuota = 0\<rparr>"
        and s = example_session]
    by simp
  have c: "Rcpt (\<lambda>x. x) example_session ''User <w@tmp.io>''
       (\<lambda>a. Response 200 (Some \<lparr>Valid = True, Expired = True,
                                 StorageUsed = 0, StorageQuota = 0\<rparr>)) =
     (Some \<lparr>Code = 550, Message = ''Recipient address rejected: Address expired''\<rparr>,
      example_session)"
    using Rcpt_outcome [where T = "\<lambda>x. x" and to = "''User <w@tmp.io>''"
        and authority = "\<lambda>a. Response 200 (Some \<lparr>Valid = True, Expired = True,
                                 StorageUsed = 0, StorageQuota = 0\<rparr>)"
        and v = "\<lparr>Valid = True, Expired = True, StorageUsed = 0, StorageQuota = 0\<rparr>"
        and s = example_session]
    by simp
  have d: "Rcpt (\<lambda>x. x) example_session ''User <w@tmp.io>''
       (\<lambda>a. Response 200 (Some \<lparr>Valid = True, Expired = False,
                                 StorageUsed = 5, StorageQuota = 100\<rparr>)) =
     (None, example_session\<lparr>recipients := recipients example_session @
        [\<lparr>address = ''w@tmp.io'', storageUsed = 5, storageQuota = 100\<rparr>]\<rparr>)"
    using Rcpt_outcome [where T = "\<lambda>x. x" and to = "''User <w@tmp.io>''"
        and authority = "\<lambda>a. Response 200 (Some \<lparr>Valid = True, Expired = False,
                                 StorageUsed = 5, StorageQuota = 100\<rparr>)"
        and v = "\<lparr>Valid = True, Expired = False, StorageUsed = 5, StorageQuota = 100\<rparr>"
        and s = example_session]
    by (simp add: addr)
  from a b c d show ?thesis
    by (intro conjI)
qed

text \<open>
  The claim as it was stated, read with the interface it comes from, has a
  "not found" answer of the authority in the 4xx range reject the recipient
  with a permanent code.  The authority answers 404 for the extracted address,
  with a body that says the address is not valid: \<open>Rcpt\<close> returns 451, which is
  temporary and not permanent.
\<close>

theorem Rcpt_not_found_counterexample:
  "Rcpt (\<lambda>x. x) example_session ''User <w@tmp.io>''
       (\<lambda>a. Response 404 (Some \<lparr>Valid = False, Expired = False,
                                 StorageUsed = 0, StorageQuota = 0\<rparr>)) =
     (Some \<lparr>Code = 451, Message = ''Temporary failure validating address''\<rparr>, example_session) \<and>
   \<not> permanent \<lparr>Code = 451, Message = ''Temporary failure validating address''\<rparr>"
  by (simp add: Rcpt_def ValidateAddress_def Let_def permanent_def)

subsection \<open>The DMARC verdict\<close>

lemma dmarc_step_keeps:
  "SPFResult (dmarc_step lib cfg d res) = SPFResult res"
  "DKIMResult (dmarc_step lib cfg d res) = DKIMResult res"
  by (simp_all add: dmarc_step_def Let_def split: dmarc_outcome.split)

text \<open>
  Claim C5.  With DMARC checking enabled and a non-empty sender domain, the
  DMARC verdict of \<open>validateEmailAuth\<close> is \<open>none\<close> when the lookup reports that no
  policy is published, \<open>temperror\<close> when the lookup fails with another error,
  and, when a policy record is found, \<open>pass\<close> if the SPF verdict or the DKIM
  verdict of the same result is \<open>pass\<close> and \<open>fail\<close> if neither is.
\<close>

theorem validateEmailAuth_DMARC:
  assumes "ValidateDMARC cfg" and "extractDomain (mailFrom s) \<noteq> []"
  shows "DMARCResult (validateEmailAuth lib cfg s rawEmail) =
     (case dmarc_Lookup lib (extractDomain (mailFrom s)) of
        ErrNoPolicy \<Rightarrow> ''none''
      | LookupError \<Rightarrow> ''temperror''
      | Record policy \<Rightarrow>
          if SPFResult (validateEmailAuth lib cfg s rawEmail) = ''pass'' \<or>
             DKIMResult (validateEmailAuth lib cfg s rawEmail) = ''pass''
          then ''pass'' else ''fail'')"
  using assms
  by (simp add: validateEmailAuth_def Let_def dmarc_step_keeps)
     (simp add: dmarc_step_def Let_def split: dmarc_outcome.split)

lemma example_domain: "extractDomain (mailFrom example_session) = ''b.c''"
  by (simp add: extractDomain_def example_session_def)

lemma example_verdicts:
  "SPFResult (validateEmailAuth example_authlib
      (example_config\<lparr>ValidateSPF := True, ValidateDMARC := True, AuthPolicy := ''reject''\<rparr>)
      example_session rawEmail) = ''fail''"
  "DKIMResult (validateEmailAuth example_authlib
      (example_config\<lparr>ValidateSPF := True, ValidateDMARC := True, AuthPolicy := ''reject''\<rparr>)
      example_session rawEmail) = ''none''"
  by (simp_all add: validateEmailAuth_def Let_def dmarc_step_keeps spf_step_def dkim_step_def
      example_domain example_config_def example_authlib_def)
     (simp_all add: example_session_def)

theorem validateEmailAuth_DMARC_witness:
  "DMARCResult (validateEmailAuth example_authlib
      (example_config\<lparr>ValidateSPF := True, ValidateDMARC := True, AuthPolicy := ''reject''\<rparr>)
      example_session ''hello'') = ''fail'' \<and>
   DMARCResult (validateEmailAuth (example_authlib\<lparr>dmarc_Lookup := (\<lambda>d. ErrNoPolicy)\<rparr>)
      (example_config\<lparr>ValidateDMARC := True\<rparr>) example_session ''hello'') = ''none''"
proof
  have "ValidateDMARC
      (example_config\<lparr>ValidateSPF := True, ValidateDMARC := True, AuthPolicy := ''reject''\<rparr>)"
    by simp
  from validateEmailAuth_DMARC [OF this, of example_session example_authlib "''hello''"]
  show "DMARCResult (validateEmailAuth example_authlib
      (example_config\<lparr>ValidateSPF := True, ValidateDMARC := True, AuthPolicy := ''reject''\<rparr>)
      example_session ''hello'') = ''fail''"
    by (simp add: example_domain example_verdicts) (simp add: example_authlib_def)
next
  have "ValidateDMARC (example_config\<lparr>ValidateDMARC := True\<rparr>)"
    by simp
  from validateEmailAuth_DMARC [OF this, of example_session
      "example_authlib\<lparr>dmarc_Lookup := (\<lambda>d. ErrNoPolicy)\<rparr>" "''hello''"]
  show "DMARCResult (validateEmailAuth (example_authlib\<lparr>dmarc_Lookup := (\<lambda>d. ErrNoPolicy)\<rparr>)
      (example_config\<lparr>ValidateDMARC := True\<rparr>) example_session ''hello'') = ''none''"
    by (simp add: example_domain)
qed

subsection \<open>The rejection policy\<close>

lemma shouldRejectEmail_iff:
  "shouldRejectEmail cfg authResult \<longleftrightarrow>
     AuthPolicy cfg = ''reject'' \<and>
     (ValidateSPF cfg \<and> (SPFResult authResult = ''fail'' \<or> SPFResult authResult = ''permerror'') \<or>
      ValidateDKIM cfg \<and> DKIMResult authResult = ''fail'' \<or>
      ValidateDMARC cfg \<and> DMARCResult authResult = ''fail'')"
  by (auto simp add: shouldRejectEmail_def)

text \<open>
  A data phase with at least one accepted recipient, a stream that ends without
  error and a body below the ceiling reaches the authentication step with the
  whole body.
\<close>

lemma Data_reaches_auth:
  assumes "recipients s \<noteq> []" "\<not> failure r" "int (length (stream r)) < MaxEmailSize cfg"
  shows "Data w lib cfg s r =
    (if (ValidateSPF cfg \<or> ValidateDKIM cfg \<or> ValidateDMARC cfg) \<and>
         shouldRejectEmail cfg (validateEmailAuth lib cfg s (stream r)) then
       \<lparr>reply = Some \<lparr>Code = 550,
            Message = ''Email rejected: authentication failed (SPF/DKIM/DMARC)''\<rparr>,
        consumed = length (stream r), effects = []\<rparr>
     else \<lparr>reply = None, consumed = length (stream r),
        effects = Data_loop w s (stream r) (word_of_nat (length (stream r))) 0 (recipients s)\<rparr>)"
proof -
  have "take (nat (MaxEmailSize cfg)) (stream r) = stream r"
    using assms(3) by simp
  then show ?thesis
    using assms by (simp add: Data_def ReadAll_LimitReader_def Let_def)
qed

text \<open>
  Claim C6.  For every auth result, \<open>shouldRejectEmail\<close> answers yes if and only
  if the policy is \<open>reject\<close> and SPF checking is enabled with an SPF verdict of
  \<open>fail\<close> or \<open>permerror\<close>, or DKIM checking is enabled with a DKIM verdict of
  \<open>fail\<close>, or DMARC checking is enabled with a DMARC verdict of \<open>fail\<close>; under
  any other policy it answers no.  And a transaction that reaches the
  authentication step (an accepted recipient, a body read without error and
  below the ceiling) is answered with an error exactly under that condition on
  the verdicts computed for it.
\<close>

theorem Data_rejects_iff:
  "(shouldRejectEmail cfg authResult \<longleftrightarrow>
     AuthPolicy cfg = ''reject'' \<and>
     (ValidateSPF cfg \<and> (SPFResult authResult = ''fail'' \<or> SPFResult authResult = ''permerror'') \<or>
      ValidateDKIM cfg \<and> DKIMResult authResult = ''fail'' \<or>
      ValidateDMARC cfg \<and> DMARCResult authResult = ''fail'')) \<and>
   (recipients s \<noteq> [] \<and> \<not> failure r \<and> int (length (stream r)) < MaxEmailSize cfg \<longrightarrow>
     (reply (Data w lib cfg s r) \<noteq> None \<longleftrightarrow>
        AuthPolicy cfg = ''reject'' \<and>
        (ValidateSPF cfg \<and>
           (SPFResult (validateEmailAuth lib cfg s (stream r)) = ''fail'' \<or>
            SPFResult (validateEmailAuth lib cfg s (stream r)) = ''permerror'') \<or>
         ValidateDKIM cfg \<and> DKIMResult (validateEmailAuth lib cfg s (stream r)) = ''fail'' \<or>
         ValidateDMARC cfg \<and> DMARCResult (validateEmailAuth lib cfg s (stream r)) = ''fail'')))"
proof (rule conjI [OF _ impI])
  show "shouldRejectEmail cfg authResult \<longleftrightarrow>
     AuthPolicy cfg = ''reject'' \<and>
     (ValidateSPF cfg \<and> (SPFResult authResult = ''fail'' \<or> SPFResult authResult = ''permerror'') \<or>
      ValidateDKIM cfg \<and> DKIMResult authResult = ''fail'' \<or>
      ValidateDMARC cfg \<and> DMARCResult authResult = ''fail'')"
    by (rule shouldRejectEmail_iff)
next
  assume "recipients s \<noteq> [] \<and> \<not> failure r \<and> int (length (stream r)) < MaxEmailSize cfg"
  then have d: "reply (Data w lib cfg s r) \<noteq> None \<longleftrightarrow>
      (ValidateSPF cfg \<or> ValidateDKIM cfg \<or> ValidateDMARC cfg) \<and>
         shouldRejectEmail cfg (validateEmailAuth lib cfg s (stream r))"
    by (simp add: Data_reaches_auth)
  show "reply (Data w lib cfg s r) \<noteq> None \<longleftrightarrow>
        AuthPolicy cfg = ''reject'' \<and>
        (ValidateSPF cfg \<and>
           (SPFResult (validateEmailAuth lib cfg s (stream r)) = ''fail'' \<or>
            SPFResult (validateEmailAuth lib cfg s (stream r)) = ''permerror'') \<or>
         ValidateDKIM cfg \<and> DKIMResult (validateEmailAuth lib cfg s (stream r)) = ''fail'' \<or>
         ValidateDMARC cfg \<and> DMARCResult (validateEmailAuth lib cfg s (stream r)) = ''fail'')"
    unfolding d shouldRejectEmail_iff by blast
qed

theorem Data_rejects_iff_witness:
  "reply (Data example_world example_authlib
      (example_config\<lparr>ValidateSPF := True, ValidateDMARC := True, AuthPolicy := ''reject''\<rparr>)
      example_session (Reader ''hello'' False)) \<noteq> None \<and>
   \<not> shouldRejectEmail (example_config\<lparr>ValidateSPF := True\<rparr>)
      \<lparr>SPFResult = ''fail'', DKIMResult = ''fail'', DMARCResult = ''fail'',
       SPFError = False, DKIMError = False, DMARCError = False\<rparr>"
proof
  have pre: "recipients example_session \<noteq> [] \<and> \<not> failure (Reader ''hello'' False) \<and>
      int (length (stream (Reader ''hello'' False))) <
        MaxEmailSize (example_config\<lparr>ValidateSPF := True, ValidateDMARC := True,
                                     AuthPolicy := ''reject''\<rparr>)"
    by (simp add: example_session_def example_config_def)
  from Data_rejects_iff [where s = example_session and r = "Reader ''hello'' False"
      and cfg = "example_config\<lparr>ValidateSPF := True, ValidateDMARC := True,
                                AuthPolicy := ''reject''\<rparr>"
      and w = example_world and lib = example_authlib, THEN conjunct2, rule_format, OF pre]
  show "reply (Data example_world example_authlib
      (example_config\<lparr>ValidateSPF := True, ValidateDMARC := True, AuthPolicy := ''reject''\<rparr>)
      example_session (Reader ''hello'' False)) \<noteq> None"
    by (simp add: example_verdicts)
next
  from Data_rejects_iff [where cfg = "example_config\<lparr>ValidateSPF := True\<rparr>"
      and authResult = "\<lparr>SPFResult = ''fail'', DKIMResult = ''fail'', DMARCResult = ''fail'',
       SPFError = False, DKIMError = False, DMARCError = False\<rparr>", THEN conjunct1]
  show "\<not> shouldRejectEmail (example_config\<lparr>ValidateSPF := True\<rparr>)
      \<lparr>SPFResult = ''fail'', DKIMResult = ''fail'', DMARCResult = ''fail'',
       SPFError = False, DKIMError = False, DMARCError = False\<rparr>"
    by (simp add: example_config_def)
qed

subsection \<open>A data phase without recipients\<close>

text \<open>
  Claim C8.  When the list of accepted recipients is empty at the start of the
  data phase, \<open>Data\<close> returns the permanent error 554 "No valid recipients",
  has taken no byte from the reader of the message body, and has performed no
  action.
\<close>

theorem Data_no_recipients:
  assumes "recipients s = []"
  shows "Data w lib cfg s r =
           \<lparr>reply = Some \<lparr>Code = 554, Message = ''No valid recipients''\<rparr>,
            consumed = 0, effects = []\<rparr> \<and>
         permanent \<lparr>Code = 554, Message = ''No valid recipients''\<rparr>"
  using assms by (simp add: Data_def permanent_def)

theorem Data_no_recipients_witness:
  "Data example_world example_authlib example_config (Reset example_session)
      (Reader ''hello'' False) =
     \<lparr>reply = Some \<lparr>Code = 554, Message = ''No valid recipients''\<rparr>,
      consumed = 0, effects = []\<rparr>"
proof -
  have "recipients (Reset example_session) = []"
    by (simp add: Reset_def)
  from Data_no_recipients [OF this, of example_world example_authlib example_config
      "Reader ''hello'' False"]
  show ?thesis
    by (rule conjunct1)
qed

subsection \<open>The size ceiling\<close>

text \<open>
  Claim C4.  When the message body is longer than the configured ceiling, the
  data phase performs no action (no file is written, no store request is sent,
  so nothing is published) and returns a permanent error; in a transaction,
  which has at least one accepted recipient, that error is 552 "Email exceeds
  maximum size".  (With no accepted recipient the permanent error is the one of
  claim C8, returned before the body is read.)
\<close>

theorem Data_too_large:
  assumes "MaxEmailSize cfg < int (length (stream r))"
  shows "effects (Data w lib cfg s r) = [] \<and>
         (\<exists>e. reply (Data w lib cfg s r) = Some e \<and> permanent e) \<and>
         (recipients s \<noteq> [] \<longrightarrow>
            reply (Data w lib cfg s r) =
              Some \<lparr>Code = 552, Message = ''Email exceeds maximum size (20MB)''\<rparr>)"
  using assms by (auto simp add: Data_def ReadAll_LimitReader_def permanent_def)

theorem Data_too_large_witness:
  "effects (Data example_world example_authlib (example_config\<lparr>MaxEmailSize := 4\<rparr>)
      example_session (Reader ''hello'' False)) = [] \<and>
   reply (Data example_world example_authlib (example_config\<lparr>MaxEmailSize := 4\<rparr>)
      example_session (Reader ''hello'' False)) =
     Some \<lparr>Code = 552, Message = ''Email exceeds maximum size (20MB)''\<rparr>"
proof -
  have big: "MaxEmailSize (example_config\<lparr>MaxEmailSize := 4\<rparr>)
      < int (length (stream (Reader ''hello'' False)))"
    by simp
  have rcpts: "recipients example_session \<noteq> []"
    by (simp add: example_session_def)
  from Data_too_large [OF big, of example_world example_authlib example_session] rcpts
  show ?thesis
    by blast
qed

text \<open>
  Claim C10.  A transaction whose body is exactly \<open>MaxEmailSize\<close> bytes long is
  rejected with the permanent error 552 and nothing is stored; every data phase
  that is accepted has a body of at most \<open>MaxEmailSize - 1\<close> bytes; and a
  transaction with a body of exactly \<open>MaxEmailSize - 1\<close> bytes, read without
  error, is accepted when no authentication check is enabled.
\<close>

theorem Data_exact_ceiling:
  "(recipients s \<noteq> [] \<and> int (length (stream r)) = MaxEmailSize cfg \<longrightarrow>
      reply (Data w lib cfg s r) =
        Some \<lparr>Code = 552, Message = ''Email exceeds maximum size (20MB)''\<rparr> \<and>
      permanent \<lparr>Code = 552, Message = ''Email exceeds maximum size (20MB)''\<rparr> \<and>
      effects (Data w lib cfg s r) = []) \<and>
   (reply (Data w lib cfg s r) = None \<longrightarrow> int (length (stream r)) \<le> MaxEmailSize cfg - 1) \<and>
   (recipients s \<noteq> [] \<and> \<not> failure r \<and> int (length (stream r)) = MaxEmailSize cfg - 1 \<and>
    \<not> (ValidateSPF cfg \<or> ValidateDKIM cfg \<or> ValidateDMARC cfg) \<longrightarrow>
      reply (Data w lib cfg s r) = None)"
proof -
  have at_ceiling: "reply (Data w lib cfg s r) =
        Some \<lparr>Code = 552, Message = ''Email exceeds maximum size (20MB)''\<rparr> \<and>
      permanent \<lparr>Code = 552, Message = ''Email exceeds maximum size (20MB)''\<rparr> \<and>
      effects (Data w lib cfg s r) = []"
    if "recipients s \<noteq> [] \<and> int (length (stream r)) = MaxEmailSize cfg"
    using that by (auto simp add: Data_def ReadAll_LimitReader_def permanent_def)
  have accepted: "int (length (stream r)) \<le> MaxEmailSize cfg - 1"
    if "reply (Data w lib cfg s r) = None"
    using that by (auto simp add: Data_def ReadAll_LimitReader_def Let_def split: if_splits)
  have below: "reply (Data w lib cfg s r) = None"
    if "recipients s \<noteq> [] \<and> \<not> failure r \<and> int (length (stream r)) = MaxEmailSize cfg - 1 \<and>
        \<not> (ValidateSPF cfg \<or> ValidateDKIM cfg \<or> ValidateDMARC cfg)"
    using that by (simp add: Data_reaches_auth)
  from at_ceiling accepted below show ?thesis
    by blast
qed

theorem Data_exact_ceiling_witness:
  "reply (Data example_world example_authlib (example_config\<lparr>MaxEmailSize := 5\<rparr>)
      example_session (Reader ''hello'' False)) =
     Some \<lparr>Code = 552, Message = ''Email exceeds maximum size (20MB)''\<rparr> \<and>
   reply (Data example_world example_authlib (example_config\<lparr>MaxEmailSize := 6\<rparr>)
      example_session (Reader ''hello'' False)) = None"
proof
  have "recipients example_session \<noteq> [] \<and>
      int (length (stream (Reader ''hello'' False))) =
        MaxEmailSize (example_config\<lparr>MaxEmailSize := 5\<rparr>)"
    by (simp add: example_session_def)
  with Data_exact_ceiling [where s = example_session and r = "Reader ''hello'' False"
      and cfg = "example_config\<lparr>MaxEmailSize := 5\<rparr>"
      and w = example_world and lib = example_authlib]
  show "reply (Data example_world example_authlib (example_config\<lparr>MaxEmailSize := 5\<rparr>)
      example_session (Reader ''hello'' False)) =
     Some \<lparr>Code = 552, Message = ''Email exceeds maximum size (20MB)''\<rparr>"
    by blast
next
  have "recipients example_session \<noteq> [] \<and> \<not> failure (Reader ''hello'' False) \<and>
      int (length (stream (Reader ''hello'' False))) =
        MaxEmailSize (example_config\<lparr>MaxEmailSize := 6\<rparr>) - 1 \<and>
      \<not> (ValidateSPF (example_config\<lparr>MaxEmailSize := 6\<rparr>) \<or>
         ValidateDKIM (example_config\<lparr>MaxEmailSize := 6\<rparr>) \<or>
         ValidateDMARC (example_config\<lparr>MaxEmailSize := 6\<rparr>))"
    by (simp add: example_session_def example_config_def)
  with Data_exact_ceiling [where s = example_session and r = "Reader ''hello'' False"
      and cfg = "example_config\<lparr>MaxEmailSize := 6\<rparr>"
      and w = example_world and lib = example_authlib]
  show "reply (Data example_world example_authlib (example_config\<lparr>MaxEmailSize := 6\<rparr>)
      example_session (Reader ''hello'' False)) = None"
    by blast
qed

subsection \<open>The retries of the persistence notifier\<close>

text \<open>The seconds slept, as they occur in a list of actions.\<close>

fun sleeps :: "action list \<Rightarrow> nat list" where
  "sleeps [] = []"
| "sleeps (Sleep n # acts) = n # sleeps acts"
| "sleeps (WriteFile path content # acts) = sleeps acts"
| "sleeps (PostStore addr req # acts) = sleeps acts"

text \<open>
  What \<open>StoreEmail\<close> does, for every store request and every run of outcomes.
  It makes at most three attempts.  It sleeps one second between the first and
  the second attempt and two seconds between the second and the third, and for
  no other duration.  An attempt that succeeds is the last one: its response is
  returned and nothing follows it.  When all three attempts fail the error of
  the third is returned inside the final error.
\<close>

lemma StoreEmail_retry:
  "fst (StoreEmail marshal outcomes addr req) =
     (if \<not> isl (doStoreEmail marshal (outcomes 0)) then [PostStore addr req]
      else if \<not> isl (doStoreEmail marshal (outcomes 1)) then
        [PostStore addr req, Sleep 1, PostStore addr req]
      else [PostStore addr req, Sleep 1, PostStore addr req, Sleep 2, PostStore addr req]) \<and>
   snd (StoreEmail marshal outcomes addr req) =
     (if \<not> isl (doStoreEmail marshal (outcomes 0)) then doStoreEmail marshal (outcomes 0)
      else if \<not> isl (doStoreEmail marshal (outcomes 1)) then doStoreEmail marshal (outcomes 1)
      else if \<not> isl (doStoreEmail marshal (outcomes 2)) then doStoreEmail marshal (outcomes 2)
      else Inl (FailedAfterAttempts 3 (Some (projl (doStoreEmail marshal (outcomes 2)))))) \<and>
   length (filter (\<lambda>a. a = PostStore addr req) (fst (StoreEmail marshal outcomes addr req))) \<le> 3 \<and>
   sleeps (fst (StoreEmail marshal outcomes addr req)) \<in> {[], [1], [1, 2]}"
proof -
  have two: "(2::nat) = Suc (Suc 0)"
    by simp
  have trace: "fst (StoreEmail marshal outcomes addr req) =
     (if \<not> isl (doStoreEmail marshal (outcomes 0)) then [PostStore addr req]
      else if \<not> isl (doStoreEmail marshal (outcomes 1)) then
        [PostStore addr req, Sleep 1, PostStore addr req]
      else [PostStore addr req, Sleep 1, PostStore addr req, Sleep 2, PostStore addr req])"
    unfolding StoreEmail_def maxRetries_def numeral_3_eq_3 two One_nat_def
    by (simp add: Let_def maxRetries_def split: sum.split prod.split)
  have result: "snd (StoreEmail marshal outcomes addr req) =
     (if \<not> isl (doStoreEmail marshal (outcomes 0)) then doStoreEmail marshal (outcomes 0)
      else if \<not> isl (doStoreEmail marshal (outcomes 1)) then doStoreEmail marshal (outcomes 1)
      else if \<not> isl (doStoreEmail marshal (outcomes 2)) then doStoreEmail marshal (outcomes 2)
      else Inl (FailedAfterAttempts 3 (Some (projl (doStoreEmail marshal (outcomes 2))))))"
    unfolding StoreEmail_def maxRetries_def numeral_3_eq_3 two One_nat_def
    by (simp add: Let_def maxRetries_def split: sum.split prod.split)
  have count: "length (filter (\<lambda>a. a = PostStore addr req)
      (fst (StoreEmail marshal outcomes addr req))) \<le> 3"
    unfolding trace by simp
  have pauses: "sleeps (fst (StoreEmail marshal outcomes addr req)) \<in> {[], [1], [1, 2]}"
    unfolding trace by simp
  from trace result count pauses show ?thesis
    by (intro conjI)
qed

definition example_request :: StoreEmailRequest where
  "example_request =
     \<lparr>To = ''u@tmp.io'', From = ''a@b.c'', Subject = ''hi'', BodyText = ''hello'',
      BodyHTML = [], RawEmail = ''hello'', FilePath = ''mail/f.eml'',
      Timestamp = ''2024-01-01T00:00:00Z'',
      AttachmentPaths = [], AttachmentNames = [], AttachmentSizes = []\<rparr>"

lemma StoreEmail_retry_example:
  "fst (StoreEmail True (store_outcomes example_world 0) ''u@tmp.io'' example_request) =
     [PostStore ''u@tmp.io'' example_request, Sleep 1, PostStore ''u@tmp.io'' example_request] \<and>
   snd (StoreEmail True (store_outcomes example_world 0) ''u@tmp.io'' example_request) =
     Inr \<lparr>Success = True, StoreMessage = ''ok'', EmailID = ''01''\<rparr>"
proof -
  have first: "doStoreEmail True (store_outcomes example_world 0 0) = Inl SendRequestFailed"
    by (simp add: doStoreEmail_def example_world_def)
  have second: "doStoreEmail True (store_outcomes example_world 0 (Suc 0)) =
      Inr \<lparr>Success = True, StoreMessage = ''ok'', EmailID = ''01''\<rparr>"
    by (simp add: doStoreEmail_def example_world_def)
  from StoreEmail_retry [of True "store_outcomes example_world 0" "''u@tmp.io''" example_request]
  show ?thesis
    by (simp add: first second)
qed


subsection \<open>The quota of each recipient\<close>

text \<open>
  The actions of the loop that belong to the recipient at position \<open>i\<close>: none
  when the quota test of the code holds for it, those of \<open>processEmail\<close>
  otherwise, whatever happens to the other recipients.
\<close>

lemma Data_loop_at:
  "filter (\<lambda>e. fst e = i) (Data_loop w s rawEmail emailSize k rcpts) =
     (if k \<le> i \<and> i < k + length rcpts then
        (if quota_exceeded (rcpts ! (i - k)) emailSize then []
         else map (Pair i) (fst (processEmail w s i (address (rcpts ! (i - k))) rawEmail)))
      else [])"
proof (induction rcpts arbitrary: k)
  case Nil
  then show ?case by auto
next
  case (Cons rcpt rcpts)
  have here: "filter (\<lambda>e. fst e = i) (map (Pair k) acts) = (if i = k then map (Pair k) acts else [])"
    for acts :: "action list"
    by (induction acts) auto
  show ?case
  proof (cases "i = k")
    case True
    then show ?thesis
      using Cons.IH [of "Suc k"] by (simp add: here)
  next
    case False
    then have "(i - k) = Suc (i - Suc k)" if "k \<le> i"
      using that by simp
    then show ?thesis
      using Cons.IH [of "Suc k"] False by (auto simp add: here)
  qed
qed

lemma Data_accepted:
  assumes "reply (Data w lib cfg s r) = None"
  shows "effects (Data w lib cfg s r) =
           Data_loop w s (stream r) (word_of_nat (length (stream r))) 0 (recipients s)"
proof -
  from assms have len: "int (length (take (nat (MaxEmailSize cfg)) (stream r))) < MaxEmailSize cfg"
    by (auto simp add: Data_def ReadAll_LimitReader_def Let_def split: if_splits)
  then have whole: "take (nat (MaxEmailSize cfg)) (stream r) = stream r"
    by (simp add: min_def split: if_splits)
  from assms show ?thesis
    by (auto simp add: Data_def ReadAll_LimitReader_def Let_def whole split: if_splits)
qed

text \<open>
  In an accepted transaction, a recipient for which the quota test of the code
  holds gets no action at all (no file, no store request), the reply stays
  \<open>nil\<close>, and every recipient for which the test does not hold gets exactly the
  actions of \<open>processEmail\<close>.
\<close>

lemma Data_recipient_effects:
  assumes "reply (Data w lib cfg s r) = None" and "i < length (recipients s)"
  shows "filter (\<lambda>e. fst e = i) (effects (Data w lib cfg s r)) =
     (if quota_exceeded (recipients s ! i) (word_of_nat (length (stream r))) then []
      else map (Pair i) (fst (processEmail w s i (address (recipients s ! i)) (stream r))))"
  using assms by (simp add: Data_accepted Data_loop_at)

text \<open>
  The test of the code is the comparison of the claim as long as the sum stays
  inside \<open>int64\<close>.
\<close>

lemma sint_add_exact:
  fixes u :: int64
  assumes "0 \<le> sint u" and "sint u + int n < 2 ^ 63"
  shows "sint (u + word_of_nat n) = sint u + int n"
proof -
  have n: "int n < 2 ^ 63"
    using assms by simp
  have sn: "sint (word_of_nat n :: int64) = int n"
    using n by (simp add: signed_of_nat signed_take_bit_int_eq_self)
  have "sint (u + word_of_nat n) = signed_take_bit 63 (sint u + sint (word_of_nat n :: int64))"
    by (simp add: sint_word_ariths)
  also have "\<dots> = sint u + int n"
    using assms sn by (simp add: signed_take_bit_int_eq_self)
  finally show ?thesis .
qed

lemma quota_exceeded_exact:
  assumes "0 \<le> sint (storageUsed rcpt)" and "sint (storageUsed rcpt) + int n < 2 ^ 63"
  shows "quota_exceeded rcpt (word_of_nat n) \<longleftrightarrow>
           0 < sint (storageQuota rcpt) \<and>
           sint (storageQuota rcpt) < sint (storageUsed rcpt) + int n"
  using assms by (simp add: quota_exceeded_def sint_add_exact)

lemma Data_quota_skip:
  assumes "reply (Data w lib cfg s r) = None" and "i < length (recipients s)"
    and "0 \<le> sint (storageUsed (recipients s ! i))"
    and "sint (storageUsed (recipients s ! i)) + int (length (stream r)) < 2 ^ 63"
    and "0 < sint (storageQuota (recipients s ! i))"
    and "sint (storageQuota (recipients s ! i))
           < sint (storageUsed (recipients s ! i)) + int (length (stream r))"
  shows "filter (\<lambda>e. fst e = i) (effects (Data w lib cfg s r)) = []"
  using assms by (simp add: Data_recipient_effects quota_exceeded_exact)

text \<open>
  A session with one accepted recipient whose quota-used is the largest \<open>int64\<close>.
\<close>

definition overflow_session :: Session where
  "overflow_session =
     \<lparr>mailFrom = ''a@b.c'',
      recipients =
        [\<lparr>address = ''u@tmp.io'', storageUsed = 0x7FFFFFFFFFFFFFFF, storageQuota = 1000\<rparr>],
      clientIP = Some ''192.0.2.1''\<rparr>"

text \<open>
  Claim C1 says that a recipient whose quota limit is positive and whose
  quota-used plus message size exceeds the limit gets no file, no store request
  and no publish.  The code adds in \<open>int64\<close>.  For a recipient accepted with
  quota-used \<open>2^63 - 1\<close> and quota-limit 1000, and a message of one byte, the
  limit is positive and quota-used plus size exceeds it, but the sum of the code
  wraps around to a negative number, the test fails, and the message is stored
  for the recipient: the file is written and the store request is sent.
\<close>

theorem Data_quota_overflow:
  "0 < sint (storageQuota (recipients overflow_session ! 0)) \<and>
   sint (storageQuota (recipients overflow_session ! 0))
     < sint (storageUsed (recipients overflow_session ! 0)) + int (length ''x'') \<and>
   reply (Data example_world example_authlib example_config overflow_session
            (Reader ''x'' False)) = None \<and>
   (0, WriteFile ''mail/f.eml'' ''x'') \<in>
     set (effects (Data example_world example_authlib example_config overflow_session
            (Reader ''x'' False))) \<and>
   (0, PostStore ''u@tmp.io''
         \<lparr>To = ''u@tmp.io'', From = ''a@b.c'', Subject = [], BodyText = [], BodyHTML = [],
          RawEmail = ''x'', FilePath = ''mail/f.eml'', Timestamp = ''2024-01-01T00:00:00Z'',
          AttachmentPaths = [], AttachmentNames = [], AttachmentSizes = []\<rparr>) \<in>
     set (effects (Data example_world example_authlib example_config overflow_session
            (Reader ''x'' False)))"
proof -
  have quota: "\<not> quota_exceeded
      \<lparr>address = ''u@tmp.io'', storageUsed = 0x7FFFFFFFFFFFFFFF, storageQuota = 1000\<rparr>
      (word_of_nat (length ''x''))"
    by (simp add: quota_exceeded_def)
  have run: "Data example_world example_authlib example_config overflow_session
            (Reader ''x'' False) =
      \<lparr>reply = None, consumed = 1,
       effects = map (Pair 0)
         (fst (processEmail example_world overflow_session 0 ''u@tmp.io'' ''x''))\<rparr>"
    using quota
    by (simp add: overflow_session_def Data_def ReadAll_LimitReader_def example_config_def)
  have acts: "fst (processEmail example_world overflow_session 0 ''u@tmp.io'' ''x'') =
      [WriteFile ''mail/f.eml'' ''x'',
       PostStore ''u@tmp.io''
         \<lparr>To = ''u@tmp.io'', From = ''a@b.c'', Subject = [], BodyText = [], BodyHTML = [],
          RawEmail = ''x'', FilePath = ''mail/f.eml'', Timestamp = ''2024-01-01T00:00:00Z'',
          AttachmentPaths = [], AttachmentNames = [], AttachmentSizes = []\<rparr>,
       Sleep 1,
       PostStore ''u@tmp.io''
         \<lparr>To = ''u@tmp.io'', From = ''a@b.c'', Subject = [], BodyText = [], BodyHTML = [],
          RawEmail = ''x'', FilePath = ''mail/f.eml'', Timestamp = ''2024-01-01T00:00:00Z'',
          AttachmentPaths = [], AttachmentNames = [], AttachmentSizes = []\<rparr>]"
    by (simp add: processEmail_def SaveEmail_def example_world_def filepath_Join_def
        filepath_Clean_def clean_step_def filepath_Base_def emptyEnvelope_def StoreEmail_def maxRetries_def numeral_3_eq_3
        doStoreEmail_def overflow_session_def Let_def)
  show ?thesis
    unfolding run acts by (simp add: overflow_session_def)
qed

section \<open>The fan-out hub\<close>

subsection \<open>State of the hub\<close>

text \<open>
  A \<open>*Client\<close> is a pointer: its identity, and the address it subscribed to.
  Its \<open>send\<close> channel is a bounded queue of messages that can be closed; the
  file that makes clients and fixes the capacity is not part of the hub, so the
  channels the hub starts with are a parameter.  The hub holds the map
  \<open>clients\<close> from an address to the set of its subscribers (a Go
  \<open>map[*Client]bool\<close>), and the channels of all clients.
\<close>

datatype Client = Client (ident: nat) (client_address: string)

record chan =
  queue :: "string list"
  capacity :: nat
  closed :: bool

record Hub =
  clients :: "string \<Rightarrow> Client set option"
  send :: "Client \<Rightarrow> chan"

text \<open>
  One round of the \<open>select\<close> loop of \<open>Run\<close> handles one event.  Closing a closed
  channel and sending on a closed channel panic, which ends the hub: such a
  round has no state after it (\<open>None\<close>).

  \<^item> \<open>register\<close>: make the room when the address has none, add the client.
  \<^item> \<open>unregister\<close>: when the client is in the room of its address, delete it
    from the room, close its channel, and delete the room when it is empty.
  \<^item> \<open>broadcast_loop\<close>: the \<open>range\<close> over the room, in the order the runtime
    picks.  \<open>room\<close> is the map the loop holds in its variable \<open>clients\<close>; it is
    the same object as the entry of the hub for the address as long as that
    entry exists.  A client whose queue has space gets the message; one whose
    queue is full has its channel closed and is deleted from the room, and the
    room is deleted from the hub when it is empty.
\<close>

definition NewHub :: "(Client \<Rightarrow> chan) \<Rightarrow> Hub" where
  "NewHub chans = \<lparr>clients = (\<lambda>a. None), send = chans\<rparr>"

definition register :: "Hub \<Rightarrow> Client \<Rightarrow> Hub" where
  "register h client =
     (let room = (case clients h (client_address client) of None \<Rightarrow> {} | Some room \<Rightarrow> room)
      in h\<lparr>clients := (clients h)(client_address client \<mapsto> insert client room)\<rparr>)"

definition unregister :: "Hub \<Rightarrow> Client \<Rightarrow> Hub option" where
  "unregister h client =
     (case clients h (client_address client) of
        None \<Rightarrow> Some h
      | Some room \<Rightarrow>
          if client \<in> room then
            (let room' = room - {client};
                 h1 = h\<lparr>clients := (clients h)(client_address client \<mapsto> room')\<rparr>
             in if closed (send h1 client) then None
                else
                  (let h2 = h1\<lparr>send := (send h1)(client := (send h1 client)\<lparr>closed := True\<rparr>)\<rparr>
                   in if room' = {} then
                        Some (h2\<lparr>clients := (clients h2)(client_address client := None)\<rparr>)
                      else Some h2))
          else Some h)"

fun broadcast_loop :: "Hub \<Rightarrow> string \<Rightarrow> string \<Rightarrow> Client set \<Rightarrow> Client list \<Rightarrow> Hub option" where
  "broadcast_loop h addr messageBytes room [] = Some h"
| "broadcast_loop h addr messageBytes room (client # rest) =
     (if closed (send h client) then None
      else if length (queue (send h client)) < capacity (send h client) then
        broadcast_loop
          (h\<lparr>send := (send h)(client := (send h client)\<lparr>queue := queue (send h client) @ [messageBytes]\<rparr>)\<rparr>)
          addr messageBytes room rest
      else
        (let h1 = h\<lparr>send := (send h)(client := (send h client)\<lparr>closed := True\<rparr>)\<rparr>;
             room' = room - {client};
             h2 = (if clients h1 addr = None then h1
                   else h1\<lparr>clients := (clients h1)(addr \<mapsto> room')\<rparr>);
             h3 = (if room' = {} then h2\<lparr>clients := (clients h2)(addr := None)\<rparr> else h2)
         in broadcast_loop h3 addr messageBytes room' rest))"

text \<open>
  The events: the three channels of the hub, and a client taking a message out
  of its queue.  A broadcast carries the marshalled message, or \<open>None\<close> when
  \<open>json.Marshal\<close> fails.  The order of the \<open>range\<close> over a Go map is not fixed;
  \<open>step_broadcast\<close> allows every enumeration of the room.
\<close>

datatype hub_event =
  Register Client
| Unregister Client
| Broadcast string "string option"
| Receive Client

inductive hub_step :: "Hub \<Rightarrow> hub_event \<Rightarrow> Hub \<Rightarrow> bool" where
  step_register: "hub_step h (Register client) (register h client)"
| step_unregister: "unregister h client = Some h' \<Longrightarrow> hub_step h (Unregister client) h'"
| step_broadcast_nobody: "clients h addr = None \<Longrightarrow> hub_step h (Broadcast addr msg) h"
| step_broadcast_marshal_error:
    "clients h addr = Some room \<Longrightarrow> hub_step h (Broadcast addr None) h"
| step_broadcast:
    "clients h addr = Some room \<Longrightarrow> set order = room \<Longrightarrow> distinct order \<Longrightarrow>
     broadcast_loop h addr messageBytes room order = Some h' \<Longrightarrow>
     hub_step h (Broadcast addr (Some messageBytes)) h'"
| step_receive:
    "queue (send h client) = m # rest \<Longrightarrow>
     hub_step h (Receive client) (h\<lparr>send := (send h)(client := (send h client)\<lparr>queue := rest\<rparr>)\<rparr>)"

inductive hub_run :: "Hub \<Rightarrow> hub_event list \<Rightarrow> Hub \<Rightarrow> bool" where
  run_start: "hub_run h [] h"
| run_step: "hub_run h evs h' \<Longrightarrow> hub_step h' ev h'' \<Longrightarrow> hub_run h (evs @ [ev]) h''"

subsection \<open>No room is empty\<close>

definition no_empty_room :: "Hub \<Rightarrow> bool" where
  "no_empty_room h \<longleftrightarrow> (\<forall>addr room. clients h addr = Some room \<longrightarrow> room \<noteq> {})"

lemma no_empty_room_send [simp]: "no_empty_room (h\<lparr>send := f\<rparr>) = no_empty_room h"
  by (simp add: no_empty_room_def)

lemma no_empty_room_put:
  "no_empty_room h \<Longrightarrow> room \<noteq> {} \<Longrightarrow> no_empty_room (h\<lparr>clients := (clients h)(addr \<mapsto> room)\<rparr>)"
  by (simp add: no_empty_room_def)

lemma no_empty_room_delete:
  "no_empty_room h \<Longrightarrow> no_empty_room (h\<lparr>clients := (clients h)(addr := None)\<rparr>)"
  by (simp add: no_empty_room_def)

lemma no_empty_room_put_delete:
  "no_empty_room h \<Longrightarrow> no_empty_room (h\<lparr>clients := (clients h)(addr \<mapsto> room, addr := None)\<rparr>)"
  by (simp add: no_empty_room_def)

lemma no_empty_room_NewHub: "no_empty_room (NewHub chans)"
  by (simp add: no_empty_room_def NewHub_def)

lemma no_empty_room_register: "no_empty_room h \<Longrightarrow> no_empty_room (register h client)"
  by (simp add: register_def Let_def no_empty_room_put)

lemma no_empty_room_unregister:
  assumes "no_empty_room h" and "unregister h client = Some h'"
  shows "no_empty_room h'"
proof (cases "clients h (client_address client)")
  case None
  with assms show ?thesis by (simp add: unregister_def)
next
  case (Some room)
  show ?thesis
  proof (cases "client \<in> room")
    case False
    with Some assms show ?thesis by (simp add: unregister_def)
  next
    case True
    show ?thesis
    proof (cases "room - {client} = {}")
      case True
      with \<open>client \<in> room\<close> Some assms(2)
      have "h' = h\<lparr>clients := (clients h)(client_address client \<mapsto> room - {client}),
                   send := (send h)(client := (send h client)\<lparr>closed := True\<rparr>),
                   clients := (clients h)(client_address client := None)\<rparr>"
        by (simp add: unregister_def Let_def split: if_splits)
      then show ?thesis
        using assms(1) by (simp add: no_empty_room_def)
    next
      case False
      with \<open>client \<in> room\<close> Some assms(2)
      have "h' = h\<lparr>clients := (clients h)(client_address client \<mapsto> room - {client}),
                   send := (send h)(client := (send h client)\<lparr>closed := True\<rparr>)\<rparr>"
        by (simp add: unregister_def Let_def split: if_splits)
      then show ?thesis
        using assms(1) False by (simp add: no_empty_room_def)
    qed
  qed
qed

lemma no_empty_room_broadcast_loop:
  "broadcast_loop h addr m room order = Some h' \<Longrightarrow> no_empty_room h \<Longrightarrow> no_empty_room h'"
proof (induction h addr m room order rule: broadcast_loop.induct)
  case (1 h addr messageBytes room)
  then show ?case by simp
next
  case (2 h addr messageBytes room client rest)
  from "2.prems"(1) have open_chan: "\<not> closed (send h client)"
    by (simp split: if_splits)
  show ?case
  proof (cases "length (queue (send h client)) < capacity (send h client)")
    case True
    with 2 open_chan show ?thesis
      by simp
  next
    case False
    define h1 where "h1 = h\<lparr>send := (send h)(client := (send h client)\<lparr>closed := True\<rparr>)\<rparr>"
    define room' where "room' = room - {client}"
    define h2 where "h2 = (if clients h1 addr = None then h1
                   else h1\<lparr>clients := (clients h1)(addr \<mapsto> room')\<rparr>)"
    define h3 where "h3 = (if room' = {} then h2\<lparr>clients := (clients h2)(addr := None)\<rparr> else h2)"
    have run: "broadcast_loop h3 addr messageBytes room' rest = Some h'"
      using "2.prems"(1) open_chan False
      unfolding h1_def room'_def h2_def h3_def
      by (simp only: broadcast_loop.simps Let_def if_False)
    have "no_empty_room h1"
      using "2.prems"(2) by (simp add: h1_def)
    then have "no_empty_room h3"
      by (auto simp add: h3_def h2_def no_empty_room_def)
    with "2.IH"(2) [OF open_chan False h1_def room'_def h2_def h3_def run]
    show ?thesis .
  qed
qed

lemma no_empty_room_step: "hub_step h ev h' \<Longrightarrow> no_empty_room h \<Longrightarrow> no_empty_room h'"
proof (induction rule: hub_step.induct)
  case (step_register h client)
  then show ?case by (rule no_empty_room_register)
next
  case (step_unregister h client h')
  then show ?case by (simp add: no_empty_room_unregister)
next
  case (step_broadcast h addr room order messageBytes h')
  then show ?case by (simp add: no_empty_room_broadcast_loop)
qed simp_all

lemma no_empty_room_run: "hub_run h evs h' \<Longrightarrow> no_empty_room h \<Longrightarrow> no_empty_room h'"
  by (induction rule: hub_run.induct) (auto intro: no_empty_room_step)

text \<open>
  Claim C7.  Start from the empty hub and let it handle any sequence of
  register, unregister and broadcast events (a broadcast removes the
  subscribers whose queue is full), with clients draining their queues in
  between.  In every state reached, every address that is a key of the
  \<open>clients\<close> map has a non-empty set of subscribers.
\<close>

theorem hub_no_empty_room:
  assumes "hub_run (NewHub chans) evs h" and "clients h addr = Some room"
  shows "room \<noteq> {}"
proof -
  have "no_empty_room h"
    using assms(1) no_empty_room_NewHub by (rule no_empty_room_run)
  with assms(2) show ?thesis
    by (simp add: no_empty_room_def)
qed


definition example_chans :: "Client \<Rightarrow> chan" where
  "example_chans c = \<lparr>queue = [], capacity = ident c - 1, closed = False\<rparr>"

theorem hub_no_empty_room_witness:
  "\<exists>h. hub_run (NewHub example_chans)
          [Register (Client 1 ''a@tmp''), Register (Client 2 ''a@tmp''),
           Register (Client 3 ''a@tmp''), Broadcast ''a@tmp'' (Some ''m''),
           Unregister (Client 2 ''a@tmp'')] h \<and>
        clients h ''a@tmp'' = Some {Client 3 ''a@tmp''} \<and>
        {Client 3 ''a@tmp''} \<noteq> ({} :: Client set)"
proof -
  define c1 where "c1 = Client 1 ''a@tmp''"
  define c2 where "c2 = Client 2 ''a@tmp''"
  define c3 where "c3 = Client 3 ''a@tmp''"
  define h0 where "h0 = NewHub example_chans"
  define h1 where "h1 = register h0 c1"
  define h2 where "h2 = register h1 c2"
  define h3 where "h3 = register h2 c3"
  have r1: "hub_run h0 ([] @ [Register c1]) h1"
    unfolding h1_def by (rule run_step [OF run_start step_register])
  have r2: "hub_run h0 (([] @ [Register c1]) @ [Register c2]) h2"
    unfolding h2_def by (rule run_step [OF r1 step_register])
  have r3: "hub_run h0 ((([] @ [Register c1]) @ [Register c2]) @ [Register c3]) h3"
    unfolding h3_def by (rule run_step [OF r2 step_register])
  have send3: "send h3 = example_chans"
    by (simp add: h3_def h2_def h1_def h0_def register_def NewHub_def)
  have room3: "clients h3 ''a@tmp'' = Some {c1, c2, c3}"
    by (simp add: h3_def h2_def h1_def h0_def register_def NewHub_def c1_def c2_def c3_def
        insert_commute)
  have entry3: "clients h3 ''a@tmp'' \<noteq> None"
    by (simp add: room3)
  have "\<exists>h4. broadcast_loop h3 ''a@tmp'' ''m'' {c1, c2, c3} [c1, c2, c3] = Some h4 \<and>
           clients h4 ''a@tmp'' = Some {c2, c3} \<and> \<not> closed (send h4 c2)"
    by (simp add: send3 entry3 example_chans_def Let_def c1_def c2_def c3_def insert_commute)
  then obtain h4 where loop: "broadcast_loop h3 ''a@tmp'' ''m'' {c1, c2, c3} [c1, c2, c3] = Some h4"
    and room4: "clients h4 ''a@tmp'' = Some {c2, c3}" and open4: "\<not> closed (send h4 c2)"
    by blast
  have "hub_step h3 (Broadcast ''a@tmp'' (Some ''m'')) h4"
    by (rule step_broadcast [OF room3 _ _ loop]) (simp_all add: c1_def c2_def c3_def)
  with r3 have r4: "hub_run h0 (((([] @ [Register c1]) @ [Register c2]) @ [Register c3])
      @ [Broadcast ''a@tmp'' (Some ''m'')]) h4"
    by (rule run_step)
  have addr2: "client_address c2 = ''a@tmp''"
    by (simp add: c2_def)
  have "\<exists>h5. unregister h4 c2 = Some h5 \<and> clients h5 ''a@tmp'' = Some {c3}"
    using room4 open4 by (simp add: unregister_def addr2 Let_def) (simp add: c2_def c3_def)
  then obtain h5 where unreg: "unregister h4 c2 = Some h5"
    and room5: "clients h5 ''a@tmp'' = Some {c3}"
    by blast
  from r4 step_unregister [OF unreg]
  have "hub_run h0 ((((([] @ [Register c1]) @ [Register c2]) @ [Register c3])
      @ [Broadcast ''a@tmp'' (Some ''m'')]) @ [Unregister c2]) h5"
    by (rule run_step)
  then have run: "hub_run (NewHub example_chans)
      [Register c1, Register c2, Register c3, Broadcast ''a@tmp'' (Some ''m''), Unregister c2] h5"
    by (simp add: h0_def)
  from hub_no_empty_room [OF run room5] have nonempty: "{c3} \<noteq> ({} :: Client set)" .
  have "hub_run (NewHub example_chans)
          [Register c1, Register c2, Register c3, Broadcast ''a@tmp'' (Some ''m''),
           Unregister c2] h5 \<and>
        clients h5 ''a@tmp'' = Some {c3} \<and> {c3} \<noteq> ({} :: Client set)"
    by (rule conjI [OF run conjI [OF room5 nonempty]])
  then have "\<exists>h. hub_run (NewHub example_chans)
          [Register c1, Register c2, Register c3, Broadcast ''a@tmp'' (Some ''m''),
           Unregister c2] h \<and>
        clients h ''a@tmp'' = Some {c3} \<and> {c3} \<noteq> ({} :: Client set)"
    by (rule exI [where x = h5 and P = "\<lambda>h. hub_run (NewHub example_chans)
          [Register c1, Register c2, Register c3, Broadcast ''a@tmp'' (Some ''m''),
           Unregister c2] h \<and>
        clients h ''a@tmp'' = Some {c3} \<and> {c3} \<noteq> ({} :: Client set)"])
  then show ?thesis
    by (simp only: c1_def c2_def c3_def)
qed

subsection \<open>Rounds that do not panic\<close>

text \<open>
  A round of the hub panics only on a closed channel.  As long as every
  subscriber of a room sits in the room of its own address and has an open
  channel, no unregister and no broadcast panics; and every round keeps this
  state of affairs, provided a client that registers comes with an open
  channel.
\<close>

definition rooms_sound :: "Hub \<Rightarrow> bool" where
  "rooms_sound h \<longleftrightarrow>
     (\<forall>addr room client. clients h addr = Some room \<longrightarrow> client \<in> room \<longrightarrow>
        client_address client = addr \<and> \<not> closed (send h client))"

lemma rooms_soundD:
  "rooms_sound h \<Longrightarrow> clients h addr = Some room \<Longrightarrow> client \<in> room \<Longrightarrow>
   client_address client = addr \<and> \<not> closed (send h client)"
  unfolding rooms_sound_def by blast

lemma rooms_sound_NewHub: "rooms_sound (NewHub chans)"
  by (simp add: rooms_sound_def NewHub_def)

lemma rooms_sound_register:
  assumes "rooms_sound h" and "\<not> closed (send h client)"
  shows "rooms_sound (register h client)"
  unfolding rooms_sound_def
proof (intro allI impI)
  fix addr room c
  assume entry: "clients (register h client) addr = Some room" and mem: "c \<in> room"
  have send_same: "send (register h client) = send h"
    by (simp add: register_def Let_def)
  show "client_address c = addr \<and> \<not> closed (send (register h client) c)"
  proof (cases "addr = client_address client")
    case False
    with entry have "clients h addr = Some room"
      by (simp add: register_def Let_def)
    from rooms_soundD [OF assms(1) this mem] show ?thesis
      by (simp add: send_same)
  next
    case True
    show ?thesis
    proof (cases "c = client")
      case True
      with \<open>addr = client_address client\<close> assms(2) show ?thesis
        by (simp add: send_same)
    next
      case False
      from entry True obtain old where old: "clients h addr = Some old" and "c \<in> old"
        using mem False by (auto simp add: register_def Let_def split: option.splits)
      from rooms_soundD [OF assms(1) old \<open>c \<in> old\<close>] show ?thesis
        by (simp add: send_same)
    qed
  qed
qed

text \<open>Taking one client out of the room of its address, whatever happens to its channel.\<close>

lemma rooms_sound_remove:
  assumes sound: "rooms_sound h"
    and entry: "clients h (client_address client) = Some room"
    and rooms: "clients h' = (clients h)(client_address client := new)"
    and new: "new = None \<or> new = Some (room - {client})"
    and chans: "\<forall>c. c \<noteq> client \<longrightarrow> send h' c = send h c"
  shows "rooms_sound h'"
  unfolding rooms_sound_def
proof (intro allI impI)
  fix addr r c
  assume e: "clients h' addr = Some r" and mem: "c \<in> r"
  show "client_address c = addr \<and> \<not> closed (send h' c)"
  proof (cases "addr = client_address client")
    case True
    with e rooms new have r: "r = room - {client}"
      by auto
    with mem have "c \<in> room" and ne: "c \<noteq> client"
      by auto
    from rooms_soundD [OF sound entry \<open>c \<in> room\<close>] ne chans True show ?thesis
      by simp
  next
    case False
    with e rooms have old: "clients h addr = Some r"
      by simp
    from rooms_soundD [OF sound old mem] have c: "client_address c = addr" "\<not> closed (send h c)"
      by simp_all
    with False have "c \<noteq> client"
      by auto
    with c chans show ?thesis
      by simp
  qed
qed

text \<open>A change to the channel of a client that is in no room.\<close>

lemma rooms_sound_outsider:
  assumes sound: "rooms_sound h"
    and absent: "clients h (client_address client) = None"
    and rooms: "clients h' = clients h"
    and chans: "\<forall>c. c \<noteq> client \<longrightarrow> send h' c = send h c"
  shows "rooms_sound h'"
  unfolding rooms_sound_def
proof (intro allI impI)
  fix addr r c
  assume e: "clients h' addr = Some r" and mem: "c \<in> r"
  with rooms have old: "clients h addr = Some r"
    by simp
  from rooms_soundD [OF sound old mem] have c: "client_address c = addr" "\<not> closed (send h c)"
    by simp_all
  with old absent have "c \<noteq> client"
    by auto
  with c chans show "client_address c = addr \<and> \<not> closed (send h' c)"
    by simp
qed

text \<open>A change to a channel that leaves it open.\<close>

lemma rooms_sound_enqueue:
  assumes sound: "rooms_sound h"
    and rooms: "clients h' = clients h"
    and chans: "\<forall>c. closed (send h' c) = closed (send h c)"
  shows "rooms_sound h'"
  using sound by (simp add: rooms_sound_def rooms chans)

lemma unregister_no_panic:
  assumes "rooms_sound h"
  shows "\<exists>h'. unregister h client = Some h'"
proof (cases "clients h (client_address client)")
  case None
  then show ?thesis by (simp add: unregister_def)
next
  case (Some room)
  show ?thesis
  proof (cases "client \<in> room")
    case False
    with Some show ?thesis by (simp add: unregister_def)
  next
    case True
    from rooms_soundD [OF assms Some True] have "\<not> closed (send h client)"
      by simp
    with Some True show ?thesis
      by (simp add: unregister_def Let_def)
  qed
qed

lemma rooms_sound_unregister:
  assumes "rooms_sound h" and "unregister h client = Some h'"
  shows "rooms_sound h'"
proof (cases "clients h (client_address client)")
  case None
  with assms show ?thesis by (simp add: unregister_def)
next
  case (Some room)
  show ?thesis
  proof (cases "client \<in> room")
    case False
    with Some assms show ?thesis by (simp add: unregister_def)
  next
    case True
    from rooms_soundD [OF assms(1) Some True] have open_chan: "\<not> closed (send h client)"
      by simp
    define new where "new = (if room - {client} = {} then None else Some (room - {client}))"
    have rooms: "clients h' = (clients h)(client_address client := new)"
      using assms(2) Some True open_chan
      by (auto simp add: unregister_def Let_def new_def split: if_splits)
    have chans: "\<forall>c. c \<noteq> client \<longrightarrow> send h' c = send h c"
      using assms(2) Some True open_chan
      by (auto simp add: unregister_def Let_def split: if_splits)
    have "new = None \<or> new = Some (room - {client})"
      by (simp add: new_def)
    with assms(1) Some rooms show ?thesis
      using chans by (rule rooms_sound_remove)
  qed
qed

lemma broadcast_loop_no_panic:
  "distinct order \<Longrightarrow> \<forall>client \<in> set order. \<not> closed (send h client) \<Longrightarrow>
   \<exists>h'. broadcast_loop h addr m room order = Some h'"
proof (induction order arbitrary: h room)
  case Nil
  then show ?case by simp
next
  case (Cons client rest)
  show ?case
  proof (cases "length (queue (send h client)) < capacity (send h client)")
    case True
    with Cons.prems Cons.IH show ?thesis
      by simp
  next
    case False
    define h1 where "h1 = h\<lparr>send := (send h)(client := (send h client)\<lparr>closed := True\<rparr>)\<rparr>"
    define room' where "room' = room - {client}"
    define h2 where "h2 = (if clients h1 addr = None then h1
                   else h1\<lparr>clients := (clients h1)(addr \<mapsto> room')\<rparr>)"
    define h3 where "h3 = (if room' = {} then h2\<lparr>clients := (clients h2)(addr := None)\<rparr> else h2)"
    have open_chan: "\<not> closed (send h client)"
      using Cons.prems(2) by simp
    have step: "broadcast_loop h addr m room (client # rest) = broadcast_loop h3 addr m room' rest"
      using open_chan False
      unfolding h1_def room'_def h2_def h3_def
      by (simp only: broadcast_loop.simps Let_def if_False)
    have "send h3 = (send h)(client := (send h client)\<lparr>closed := True\<rparr>)"
      by (simp add: h3_def h2_def h1_def)
    then have "\<forall>c \<in> set rest. \<not> closed (send h3 c)"
      using Cons.prems by auto
    with Cons.prems(1) have "\<exists>h'. broadcast_loop h3 addr m room' rest = Some h'"
      by (intro Cons.IH) simp_all
    then show ?thesis
      by (simp only: step)
  qed
qed

lemma rooms_sound_broadcast_loop:
  "broadcast_loop h addr m room order = Some h' \<Longrightarrow> rooms_sound h \<Longrightarrow>
   clients h addr = Some room \<or> clients h addr = None \<Longrightarrow>
   \<forall>client \<in> set order. client_address client = addr \<Longrightarrow> rooms_sound h'"
proof (induction h addr m room order rule: broadcast_loop.induct)
  case (1 h addr messageBytes room)
  then show ?case by simp
next
  case (2 h addr messageBytes room client rest)
  from "2.prems"(1) have open_chan: "\<not> closed (send h client)"
    by (simp split: if_splits)
  have addr: "client_address client = addr"
    using "2.prems"(4) by simp
  have rest: "\<forall>client \<in> set rest. client_address client = addr"
    using "2.prems"(4) by simp
  show ?case
  proof (cases "length (queue (send h client)) < capacity (send h client)")
    case True
    define h1 where "h1 = h\<lparr>send := (send h)(client :=
        (send h client)\<lparr>queue := queue (send h client) @ [messageBytes]\<rparr>)\<rparr>"
    have run: "broadcast_loop h1 addr messageBytes room rest = Some h'"
      using "2.prems"(1) open_chan True by (simp add: h1_def)
    have "rooms_sound h1"
      using "2.prems"(2) by (rule rooms_sound_enqueue) (simp_all add: h1_def)
    moreover have "clients h1 addr = Some room \<or> clients h1 addr = None"
      using "2.prems"(3) by (simp add: h1_def)
    ultimately show ?thesis
      using "2.IH"(1) [OF open_chan True run [unfolded h1_def]] rest by (simp add: h1_def)
  next
    case False
    define h1 where "h1 = h\<lparr>send := (send h)(client := (send h client)\<lparr>closed := True\<rparr>)\<rparr>"
    define room' where "room' = room - {client}"
    define h2 where "h2 = (if clients h1 addr = None then h1
                   else h1\<lparr>clients := (clients h1)(addr \<mapsto> room')\<rparr>)"
    define h3 where "h3 = (if room' = {} then h2\<lparr>clients := (clients h2)(addr := None)\<rparr> else h2)"
    have run: "broadcast_loop h3 addr messageBytes room' rest = Some h'"
      using "2.prems"(1) open_chan False
      unfolding h1_def room'_def h2_def h3_def
      by (simp only: broadcast_loop.simps Let_def if_False)
    have chans: "\<forall>c. c \<noteq> client \<longrightarrow> send h3 c = send h c"
      by (simp add: h3_def h2_def h1_def)
    have sound3: "rooms_sound h3"
    proof (cases "clients h addr")
      case None
      have "clients h3 = clients h"
        using None by (auto simp add: h3_def h2_def h1_def)
      with "2.prems"(2) None show ?thesis
        using chans addr by (intro rooms_sound_outsider [of h client h3]) simp_all
    next
      case (Some r)
      with "2.prems"(3) have entry: "clients h (client_address client) = Some room"
        by (simp add: addr)
      define new where "new = (if room' = {} then None else Some room')"
      have "clients h3 = (clients h)(client_address client := new)"
        using Some by (auto simp add: h3_def h2_def h1_def new_def addr)
      moreover have "new = None \<or> new = Some (room - {client})"
        by (simp add: new_def room'_def)
      ultimately show ?thesis
        using "2.prems"(2) entry chans by (intro rooms_sound_remove [of h client room h3 new])
    qed
    have entry3: "clients h3 addr = Some room' \<or> clients h3 addr = None"
      using "2.prems"(3) by (auto simp add: h3_def h2_def h1_def)
    from "2.IH"(2) [OF open_chan False h1_def room'_def h2_def h3_def run sound3 entry3 rest]
    show ?thesis .
  qed
qed

lemma rooms_sound_step:
  assumes "hub_step h ev h'" and "rooms_sound h"
    and "\<And>client. ev = Register client \<Longrightarrow> \<not> closed (send h client)"
  shows "rooms_sound h'"
  using assms
proof (induction rule: hub_step.induct)
  case (step_register h client)
  then show ?case by (simp add: rooms_sound_register)
next
  case (step_unregister h client h')
  then show ?case by (simp add: rooms_sound_unregister)
next
  case (step_broadcast h addr room order messageBytes h')
  have "\<forall>client \<in> set order. client_address client = addr"
    using step_broadcast.hyps(1,2) step_broadcast.prems(1) by (auto dest: rooms_soundD)
  with step_broadcast show ?case
    by (intro rooms_sound_broadcast_loop [of h addr messageBytes room order h']) simp_all
next
  case (step_receive h client m rest)
  from step_receive.prems(1) show ?case
    by (rule rooms_sound_enqueue) simp_all
qed simp_all

lemma hub_round_no_panic:
  assumes "rooms_sound h"
  shows "(\<exists>h'. unregister h client = Some h') \<and>
         (clients h addr = Some room \<and> set order = room \<and> distinct order \<longrightarrow>
            (\<exists>h'. broadcast_loop h addr m room order = Some h'))"
proof
  show "\<exists>h'. unregister h client = Some h'"
    using assms by (rule unregister_no_panic)
next
  show "clients h addr = Some room \<and> set order = room \<and> distinct order \<longrightarrow>
            (\<exists>h'. broadcast_loop h addr m room order = Some h')"
  proof
    assume a: "clients h addr = Some room \<and> set order = room \<and> distinct order"
    then have "\<forall>client \<in> set order. \<not> closed (send h client)"
      using assms by (auto dest: rooms_soundD)
    with a show "\<exists>h'. broadcast_loop h addr m room order = Some h'"
      by (intro broadcast_loop_no_panic) simp_all
  qed
qed

end
